theory Spec2Isabelle
  imports Complex_Main "HOL-Library.AList" "HOL-Library.List_Lexorder" "HOL-Library.Char_ord"
begin

section \<open>Python values\<close>

text \<open>
  Strings are byte strings (\<^typ>\<open>string\<close>); the model coincides with Python on ASCII text.
  \<^verbatim>\<open>str.strip()\<close> removes the ASCII characters Python counts as whitespace,
  \<^verbatim>\<open>str.lower()\<close> maps \<open>A..Z\<close> to \<open>a..z\<close>; bytes above 127 are left alone.
\<close>

definition py_isspace :: "char \<Rightarrow> bool" where
  "py_isspace c \<longleftrightarrow>
     c \<in> set [CHR 0x09, CHR 0x0A, CHR 0x0B, CHR 0x0C, CHR 0x0D,
               CHR 0x1C, CHR 0x1D, CHR 0x1E, CHR 0x1F, CHR 0x20]"

definition py_strip :: "string \<Rightarrow> string" where
  "py_strip s = rev (dropWhile py_isspace (rev (dropWhile py_isspace s)))"

definition py_lower_char :: "char \<Rightarrow> char" where
  "py_lower_char c =
     (let n = (of_char c :: nat) in if 65 \<le> n \<and> n \<le> 90 then char_of (n + 32) else c)"

definition py_lower :: "string \<Rightarrow> string" where
  "py_lower s = map py_lower_char s"

text \<open>
  Everything the code types as \<^verbatim>\<open>Any\<close> (what \<^verbatim>\<open>json.loads\<close> returns, the values kept in
  \<^verbatim>\<open>section_objects\<close> and \<^verbatim>\<open>resume_sections\<close>) is a value of \<open>json\<close>; \<open>JNull\<close> is
  \<^verbatim>\<open>None\<close>. A dict is an association list with distinct keys, in insertion order.
\<close>

datatype pyfloat = Finite rat | PosInf | NegInf | NaN

datatype json =
    JNull
  | JBool bool
  | JInt int
  | JFloat pyfloat
  | JStr string
  | JArr "json list"
  | JObj "(string \<times> json) list"

datatype py_error = ValueError string | TypeError | AttributeError

text \<open>Truth value of an object, as \<^verbatim>\<open>if x:\<close> and \<^verbatim>\<open>x or y\<close> test it.\<close>

fun truthy :: "json \<Rightarrow> bool" where
  "truthy JNull = False"
| "truthy (JBool b) = b"
| "truthy (JInt n) = (n \<noteq> 0)"
| "truthy (JFloat f) = (f \<noteq> Finite 0)"
| "truthy (JStr s) = (s \<noteq> [])"
| "truthy (JArr xs) = (xs \<noteq> [])"
| "truthy (JObj kvs) = (kvs \<noteq> [])"

text \<open>\<^verbatim>\<open>len(x)\<close>: defined on strings, lists and dicts, a \<^verbatim>\<open>TypeError\<close> otherwise.\<close>

fun py_len :: "json \<Rightarrow> py_error + nat" where
  "py_len (JStr s) = Inr (length s)"
| "py_len (JArr xs) = Inr (length xs)"
| "py_len (JObj kvs) = Inr (length kvs)"
| "py_len _ = Inl TypeError"

text \<open>\<^verbatim>\<open>d.get(k, default)\<close> on a dict.\<close>

definition dict_get :: "(string \<times> json) list \<Rightarrow> string \<Rightarrow> json \<Rightarrow> json" where
  "dict_get d k dflt = (case map_of d k of None \<Rightarrow> dflt | Some v \<Rightarrow> v)"

section \<open>The conversation state (agents/resume\_builder\_state.py)\<close>

text \<open>
  A message carries a role and a content; \<^verbatim>\<open>message_id\<close> (a fresh uuid) and \<^verbatim>\<open>timestamp\<close>
  (the clock) are left out. The fields \<^verbatim>\<open>section_done\<close>, \<^verbatim>\<open>context_summary\<close> and
  \<^verbatim>\<open>execution_meta\<close> are never read or written by the handlers and are left out too.
  \<^verbatim>\<open>resume_sections\<close> defaults to \<^verbatim>\<open>None\<close>, hence the option.
\<close>

record message =
  role :: string
  content :: json

definition make_message :: "string \<Rightarrow> json \<Rightarrow> message" where
  "make_message r c = \<lparr>role = r, content = c\<rparr>"

record ResumeBuilderState =
  jd_summary :: "string option"
  resume_sections :: "(string \<rightharpoonup> json) option"
  section_objects :: "(string \<times> (string \<times> json) list) list"
  current_section :: "string option"
  context' :: "message list"
  recommended_answers :: "string \<rightharpoonup> string list"
  routing_attempts :: int
  next_action :: "string option"
  proposed_section_content :: json

definition append_message :: "string \<Rightarrow> json \<Rightarrow> ResumeBuilderState \<Rightarrow> ResumeBuilderState" where
  "append_message r c s = s\<lparr>context' := context' s @ [make_message r c]\<rparr>"

section \<open>Answer ledger (safe\_initialize\_answers)\<close>

text \<open>
  The resize loop: \<^verbatim>\<open>new_answers = [""] * n\<close>, then
  \<^verbatim>\<open>for i in range(min(len(current_answers), n)): new_answers[i] = current_answers[i]\<close>.
\<close>

definition resize_answers :: "string list \<Rightarrow> nat \<Rightarrow> string list" where
  "resize_answers current_answers n =
     fold (\<lambda>i new_answers. new_answers[i := current_answers ! i])
          [0..<min (length current_answers) n] (replicate n [])"

definition safe_initialize_answers ::
  "ResumeBuilderState \<Rightarrow> string \<Rightarrow> json \<Rightarrow> py_error + ResumeBuilderState" where
  "safe_initialize_answers s section_name questions =
     (case py_len questions of
        Inl e \<Rightarrow> Inl e
      | Inr n \<Rightarrow>
          (case recommended_answers s section_name of
             None \<Rightarrow>
               Inr (s\<lparr>recommended_answers :=
                        (recommended_answers s)(section_name \<mapsto> replicate n [])\<rparr>)
           | Some current_answers \<Rightarrow>
               if length current_answers \<noteq> n
               then Inr (s\<lparr>recommended_answers :=
                        (recommended_answers s)(section_name \<mapsto> resize_answers current_answers n)\<rparr>)
               else Inr s))"

section \<open>String similarity (difflib.SequenceMatcher)\<close>

text \<open>
  \<^verbatim>\<open>SequenceMatcher(None, a, b).ratio()\<close> of the Python standard library, which
  \<^verbatim>\<open>normalize_section_name\<close> calls. There is no junk predicate; with \<^verbatim>\<open>autojunk\<close> on, an
  element of a \<open>b\<close> of 200 or more elements that occurs more than \<open>len(b) // 100 + 1\<close> times
  is "popular" and is left out of the index \<^verbatim>\<open>b2j\<close>.
\<close>

definition popular :: "string \<Rightarrow> char \<Rightarrow> bool" where
  "popular b elt \<longleftrightarrow> 200 \<le> length b \<and> length b div 100 + 1 < count_list b elt"

text \<open>
  One row of \<^verbatim>\<open>find_longest_match\<close>: \<open>newj2len[j] = j2len.get(j - 1, 0) + 1\<close> for every \<open>j\<close> of
  \<open>b2j[a[i]]\<close> inside the window; a missing key is the entry \<open>0\<close>.
\<close>

definition next_row :: "string \<Rightarrow> string \<Rightarrow> nat \<Rightarrow> nat \<Rightarrow> nat \<Rightarrow> nat list \<Rightarrow> nat list" where
  "next_row a b blo bhi i j2len =
     map (\<lambda>j. if blo \<le> j \<and> j < bhi \<and> b ! j = a ! i \<and> \<not> popular b (b ! j)
              then (if j = 0 then 0 else j2len ! (j - 1)) + 1 else 0)
         [0..<length b]"

definition scan_row :: "nat \<Rightarrow> nat list \<Rightarrow> nat \<times> nat \<times> nat \<Rightarrow> nat \<times> nat \<times> nat" where
  "scan_row i newj2len best =
     fold (\<lambda>j (besti, bestj, bestsize).
             let k = newj2len ! j in
             if bestsize < k then (i + 1 - k, j + 1 - k, k) else (besti, bestj, bestsize))
          [0..<length newj2len] best"

definition longest_block ::
  "string \<Rightarrow> string \<Rightarrow> nat \<Rightarrow> nat \<Rightarrow> nat \<Rightarrow> nat \<Rightarrow> nat \<times> nat \<times> nat" where
  "longest_block a b alo ahi blo bhi =
     fst (fold (\<lambda>i (best, j2len).
                  let newj2len = next_row a b blo bhi i j2len
                  in (scan_row i newj2len best, newj2len))
               [alo..<ahi] ((alo, blo, 0), replicate (length b) 0))"

text \<open>The two loops that extend the block over equal neighbours (none of them is junk).\<close>

fun extend_left ::
  "string \<Rightarrow> string \<Rightarrow> nat \<Rightarrow> nat \<Rightarrow> nat \<times> nat \<times> nat \<Rightarrow> nat \<times> nat \<times> nat" where
  "extend_left a b alo blo (besti, bestj, bestsize) =
     (if alo < besti \<and> blo < bestj \<and> a ! (besti - 1) = b ! (bestj - 1)
      then extend_left a b alo blo (besti - 1, bestj - 1, bestsize + 1)
      else (besti, bestj, bestsize))"

function extend_right ::
  "string \<Rightarrow> string \<Rightarrow> nat \<Rightarrow> nat \<Rightarrow> nat \<times> nat \<times> nat \<Rightarrow> nat \<times> nat \<times> nat" where
  "extend_right a b ahi bhi (besti, bestj, bestsize) =
     (if besti + bestsize < ahi \<and> bestj + bestsize < bhi \<and>
         a ! (besti + bestsize) = b ! (bestj + bestsize)
      then extend_right a b ahi bhi (besti, bestj, bestsize + 1)
      else (besti, bestj, bestsize))"
  by pat_completeness auto
termination
  by (relation "measure (\<lambda>(a, b, ahi, bhi, besti, bestj, bestsize). ahi - (besti + bestsize))") auto

definition find_longest_match ::
  "string \<Rightarrow> string \<Rightarrow> nat \<Rightarrow> nat \<Rightarrow> nat \<Rightarrow> nat \<Rightarrow> nat \<times> nat \<times> nat" where
  "find_longest_match a b alo ahi blo bhi =
     extend_right a b ahi bhi (extend_left a b alo blo (longest_block a b alo ahi blo bhi))"

text \<open>
  \<^verbatim>\<open>get_matching_blocks\<close> takes the longest block of a window and goes on with the window
  to its left and the window to its right; \<open>matched\<close> is the sum of the sizes of the blocks,
  which is all \<^verbatim>\<open>ratio\<close> reads. The recursion ends because a block of size \<open>k > 0\<close> lies
  inside its window, so both remaining windows are shorter.
\<close>

function matched :: "string \<Rightarrow> string \<Rightarrow> nat \<Rightarrow> nat \<Rightarrow> nat \<Rightarrow> nat \<Rightarrow> nat" where
  "matched a b alo ahi blo bhi =
     (case find_longest_match a b alo ahi blo bhi of
        (i, j, k) \<Rightarrow>
          if k = 0 then 0
          else k + (if alo < i \<and> blo < j then matched a b alo i blo j else 0)
                 + (if i + k < ahi \<and> j + k < bhi then matched a b (i + k) ahi (j + k) bhi else 0))"
  by pat_completeness auto
termination
proof -
  have scan: "alo \<le> fst (fold (\<lambda>j (besti, bestj, bestsize).
             let k = row ! j in
             if bestsize < k then (i + 1 - k, j + 1 - k, k) else (besti, bestj, bestsize)) js bst) \<and>
        fst (fold (\<lambda>j (besti, bestj, bestsize).
             let k = row ! j in
             if bestsize < k then (i + 1 - k, j + 1 - k, k) else (besti, bestj, bestsize)) js bst) +
        snd (snd (fold (\<lambda>j (besti, bestj, bestsize).
             let k = row ! j in
             if bestsize < k then (i + 1 - k, j + 1 - k, k) else (besti, bestj, bestsize)) js bst)) \<le> i + 1"
    if "\<forall>j < length row. row ! j \<le> i + 1 - alo" and "alo \<le> i"
      and "set js \<subseteq> {0..<length row}" and "alo \<le> fst bst" and "fst bst + snd (snd bst) \<le> i + 1"
    for js bst row and i alo :: nat
    using that(3-5)
  proof (induction js arbitrary: bst)
    case Nil
    then show ?case by simp
  next
    case (Cons j js)
    obtain bi bj bk where bst: "bst = (bi, bj, bk)" by (cases bst)
    from Cons.prems have "j < length row" by simp
    with that(1) have rj: "row ! j \<le> i + 1 - alo" by blast
    let ?b = "if bk < row ! j then (i + 1 - row ! j, j + 1 - row ! j, row ! j) else (bi, bj, bk)"
    have "alo \<le> fst ?b \<and> fst ?b + snd (snd ?b) \<le> i + 1"
      using Cons.prems rj that(2) by (auto simp: bst)
    moreover have "set js \<subseteq> {0..<length row}" using Cons.prems by simp
    ultimately show ?case
      using Cons.IH [of ?b] by (simp add: bst Let_def)
  qed
  have scan_row_bound: "alo \<le> fst (scan_row i row best) \<and>
         fst (scan_row i row best) + snd (snd (scan_row i row best)) \<le> i + 1"
    if "\<forall>j < length row. row ! j \<le> i + 1 - alo" and "alo \<le> i"
      and "alo \<le> fst best" and "fst best + snd (snd best) \<le> i + 1"
    for row best and i alo :: nat
    using scan [OF that(1,2) _ that(3,4), of "[0..<length row]"] by (simp add: scan_row_def)
  have next_row_bound: "length (next_row a b blo bhi i prev) = length b \<and>
         (\<forall>j < length b. next_row a b blo bhi i prev ! j \<le> c + 1)"
    if "\<forall>j < length b. prev ! j \<le> c" for a b blo bhi i prev c
    using that by (auto simp: next_row_def)
  have longest_block_bound: "alo \<le> fst (longest_block a b alo ahi blo bhi) \<and>
         fst (longest_block a b alo ahi blo bhi) + snd (snd (longest_block a b alo ahi blo bhi)) \<le> ahi"
    if le: "alo \<le> ahi" for a b alo ahi blo bhi
  proof -
    let ?step = "\<lambda>i (best, j2len).
                    let newj2len = next_row a b blo bhi i j2len
                    in (scan_row i newj2len best, newj2len)"
    let ?init = "((alo, blo, 0::nat), replicate (length b) (0::nat))"
    have inv: "alo \<le> fst (fst (fold ?step [alo..<alo + d] ?init)) \<and>
          fst (fst (fold ?step [alo..<alo + d] ?init)) +
            snd (snd (fst (fold ?step [alo..<alo + d] ?init))) \<le> alo + d \<and>
          length (snd (fold ?step [alo..<alo + d] ?init)) = length b \<and>
          (\<forall>j < length b. snd (fold ?step [alo..<alo + d] ?init) ! j \<le> d)" for d
    proof (induction d)
      case 0
      show ?case by simp
    next
      case (Suc d)
      obtain best row where f: "fold ?step [alo..<alo + d] ?init = (best, row)"
        by (cases "fold ?step [alo..<alo + d] ?init")
      from Suc f have b1: "alo \<le> fst best" and b2: "fst best + snd (snd best) \<le> alo + d"
        and r1: "length row = length b" and r2: "\<forall>j < length b. row ! j \<le> d"
        by simp_all
      let ?new = "next_row a b blo bhi (alo + d) row"
      from next_row_bound [OF r2, of a blo bhi "alo + d"]
      have n1: "length ?new = length b" and n2: "\<forall>j < length b. ?new ! j \<le> d + 1" by simp_all
      have "\<forall>j < length ?new. ?new ! j \<le> (alo + d) + 1 - alo" using n1 n2 by simp
      from scan_row_bound [OF this, of best] b1 b2
      have s: "alo \<le> fst (scan_row (alo + d) ?new best) \<and>
               fst (scan_row (alo + d) ?new best) + snd (snd (scan_row (alo + d) ?new best))
                 \<le> alo + d + 1"
        by simp
      have "fold ?step [alo..<alo + Suc d] ?init = (scan_row (alo + d) ?new best, ?new)"
        using f by (simp add: Let_def)
      then show ?case using s n1 n2 by simp
    qed
    from le obtain d where "ahi = alo + d" using le_Suc_ex by blast
    with inv [of d] show ?thesis by (simp add: longest_block_def)
  qed
  have extend_left_bound: "alo \<le> fst best \<Longrightarrow>
     alo \<le> fst (extend_left a b alo blo best) \<and>
     fst (extend_left a b alo blo best) + snd (snd (extend_left a b alo blo best)) =
       fst best + snd (snd best)" for a b alo blo best
  proof (induction a b alo blo best rule: extend_left.induct)
    case (1 a b alo blo besti bestj bestsize)
    then show ?case
      by (auto simp del: extend_left.simps
               simp add: extend_left.simps [of a b alo blo besti bestj bestsize])
  qed
  have extend_right_bound: "fst best + snd (snd best) \<le> ahi \<Longrightarrow>
     fst (extend_right a b ahi bhi best) = fst best \<and>
     fst (extend_right a b ahi bhi best) + snd (snd (extend_right a b ahi bhi best)) \<le> ahi"
    for a b ahi bhi best
  proof (induction a b ahi bhi best rule: extend_right.induct)
    case (1 a b ahi bhi besti bestj bestsize)
    then show ?case
      by (auto simp del: extend_right.simps
               simp add: extend_right.simps [of a b ahi bhi besti bestj bestsize])
  qed
  have inside: "alo \<le> i \<and> i + k \<le> ahi"
    if eq: "find_longest_match a b alo ahi blo bhi = (i, j, k)" and k: "k \<noteq> 0"
    for a b alo ahi blo bhi i j k
  proof (cases "alo \<le> ahi")
    case True
    let ?b0 = "longest_block a b alo ahi blo bhi"
    let ?b1 = "extend_left a b alo blo ?b0"
    from longest_block_bound [OF True, of a b blo bhi]
    have l: "alo \<le> fst ?b0" "fst ?b0 + snd (snd ?b0) \<le> ahi" by simp_all
    from extend_left_bound [OF l(1), of a b blo] l(2)
    have e: "alo \<le> fst ?b1" "fst ?b1 + snd (snd ?b1) \<le> ahi" by simp_all
    from extend_right_bound [OF e(2), of a b bhi] e(1) eq
    show ?thesis by (simp add: find_longest_match_def)
  next
    case False
    then have "longest_block a b alo ahi blo bhi = (alo, blo, 0)"
      by (simp add: longest_block_def)
    with False have "find_longest_match a b alo ahi blo bhi = (alo, blo, 0)"
      by (simp add: find_longest_match_def)
    with eq k show ?thesis by simp
  qed
  show ?thesis
  proof (relation "measure (\<lambda>(a, b, alo, ahi, blo, bhi). ahi - alo)", goal_cases)
    case 1
    show ?case by simp
  next
    case (2 a b alo ahi blo bhi i y j k)
    then have "find_longest_match a b alo ahi blo bhi = (i, j, k)" by simp
    from inside [OF this] 2 show ?case by auto
  next
    case (3 a b alo ahi blo bhi i y j k)
    then have "find_longest_match a b alo ahi blo bhi = (i, j, k)" by simp
    from inside [OF this] 3 show ?case by auto
  qed
qed

declare matched.simps [simp del]

text \<open>
  \<^verbatim>\<open>2.0 * matches / length\<close>, and \<open>1.0\<close> for two empty strings. The float is read as the
  exact fraction: the comparisons made on it (\<open>> 0.6\<close>, \<open>> best_similarity\<close>) have the same
  outcome on the floats, the quotients of small integers being rounded monotonically.
\<close>

definition ratio :: "string \<Rightarrow> string \<Rightarrow> rat" where
  "ratio a b =
     (if length a + length b = 0 then 1
      else 2 * of_nat (matched a b 0 (length a) 0 (length b)) / of_nat (length a + length b))"

section \<open>Fuzzy section resolver (normalize\_section\_name)\<close>

definition section_aliases :: "(string \<times> string) list" where
  "section_aliases =
     [(''skill'', ''skills''),
      (''experience'', ''experiences''),
      (''exp'', ''experiences''),
      (''work'', ''experiences''),
      (''edu'', ''education''),
      (''school'', ''education''),
      (''project'', ''projects''),
      (''cert'', ''certificates''),
      (''certification'', ''certificates''),
      (''certs'', ''certificates''),
      (''pub'', ''publications''),
      (''publication'', ''publications''),
      (''papers'', ''publications''),
      (''lang'', ''languages''),
      (''language'', ''languages''),
      (''rec'', ''recommendations''),
      (''recommendation'', ''recommendations''),
      (''refs'', ''recommendations''),
      (''references'', ''recommendations''),
      (''contact'', ''contact''),
      (''contacts'', ''contact''),
      (''summary'', ''summary''),
      (''about'', ''summary''),
      (''custom'', ''custom''),
      (''other'', ''custom''),
      (''additional'', ''custom'')]"

text \<open>
  The fuzzy loop: \<^verbatim>\<open>best_match = None; best_similarity = 0.0\<close>, then for every section
  \<^verbatim>\<open>if similarity > best_similarity and similarity > 0.6\<close> the pair is replaced.
\<close>

definition fuzzy_step :: "string \<Rightarrow> string \<Rightarrow> string option \<times> rat \<Rightarrow> string option \<times> rat" where
  "fuzzy_step clean_input section best =
     (let similarity = ratio clean_input section in
      if snd best < similarity \<and> 6 / 10 < similarity then (Some section, similarity) else best)"

definition fuzzy_match :: "string \<Rightarrow> string list \<Rightarrow> string option" where
  "fuzzy_match clean_input available_sections =
     fst (fold (fuzzy_step clean_input) available_sections (None, 0))"

definition normalize_section_name :: "string \<Rightarrow> string list \<Rightarrow> string option" where
  "normalize_section_name section_name available_sections =
     (if section_name = [] \<or> available_sections = [] then None
      else
        let clean_input = py_strip (py_lower section_name) in
        if clean_input \<in> set available_sections then Some clean_input
        else
          (case map_of section_aliases clean_input of
             Some canonical \<Rightarrow>
               if canonical \<in> set available_sections then Some canonical
               else fuzzy_match clean_input available_sections
           | None \<Rightarrow> fuzzy_match clean_input available_sections))"

text \<open>
  The callers pass whatever the decision holds under \<^verbatim>\<open>route\<close> or \<^verbatim>\<open>target_section\<close>: a value
  that is falsy gives \<^verbatim>\<open>None\<close> at the first test, one that is not a string fails at
  \<^verbatim>\<open>.lower()\<close> with an \<^verbatim>\<open>AttributeError\<close>.
\<close>

definition normalize_any :: "json \<Rightarrow> string list \<Rightarrow> py_error + string option" where
  "normalize_any v available_sections =
     (if \<not> truthy v \<or> available_sections = [] then Inr None
      else case v of
             JStr section_name \<Rightarrow> Inr (normalize_section_name section_name available_sections)
           | _ \<Rightarrow> Inl AttributeError)"

section \<open>Structured-decision extractor (extract\_and\_validate\_json)\<close>

text \<open>
  \<^verbatim>\<open>re.search(r'\{[^{}]*(?:\{[^{}]*\}[^{}]*)*\}', raw_text, re.DOTALL)\<close>. At a given start the
  pattern has one way to match: every run \<^verbatim>\<open>[^{}]*\<close> is followed by a brace or the end of
  the text, so it takes the whole run of other characters, and the group is repeated as
  long as an opening brace follows. \<open>match_groups\<close> is the text after the first run,
  \<open>match_at\<close> one attempt at the head of the text, \<open>re_search\<close> the leftmost attempt
  that succeeds.
\<close>

definition not_brace :: "char \<Rightarrow> bool" where
  "not_brace c \<longleftrightarrow> c \<noteq> CHR ''{'' \<and> c \<noteq> CHR ''}''"

function match_groups :: "string \<Rightarrow> string \<Rightarrow> string option" where
  "match_groups acc rest =
     (case rest of
        [] \<Rightarrow> None
      | c # r \<Rightarrow>
          if c = CHR ''}'' then Some (acc @ [c])
          else if c = CHR ''{'' then
            (case dropWhile not_brace r of
               [] \<Rightarrow> None
             | c2 # r3 \<Rightarrow>
                 if c2 = CHR ''}''
                 then match_groups
                        (acc @ [c] @ takeWhile not_brace r @ [c2] @ takeWhile not_brace r3)
                        (dropWhile not_brace r3)
                 else None)
          else None)"
  by pat_completeness auto
termination
proof (relation "measure (\<lambda>(acc, rest). length rest)", goal_cases)
  case 1
  show ?case by simp
next
  case (2 acc rest c r c2 r3)
  have "length (dropWhile not_brace r3) \<le> length r3"
    by (rule length_dropWhile_le)
  moreover have "length (dropWhile not_brace r) \<le> length r"
    by (rule length_dropWhile_le)
  ultimately show ?case using 2 by simp
qed

declare match_groups.simps [simp del]

definition match_at :: "string \<Rightarrow> string option" where
  "match_at text =
     (case text of
        [] \<Rightarrow> None
      | c # r \<Rightarrow>
          if c = CHR ''{'' then match_groups (c # takeWhile not_brace r) (dropWhile not_brace r)
          else None)"

fun re_search :: "string \<Rightarrow> string option" where
  "re_search [] = None"
| "re_search (c # cs) =
     (case match_at (c # cs) of Some m \<Rightarrow> Some m | None \<Rightarrow> re_search cs)"

text \<open>
  The span in the words of the specification: a balanced brace-delimited substring
  containing at most one level of nested braces. \<open>nesting_ok inside body\<close> reads what
  stands between the outer braces, \<open>inside\<close> telling whether a nested pair is open.
\<close>

fun nesting_ok :: "bool \<Rightarrow> string \<Rightarrow> bool" where
  "nesting_ok inside [] = (\<not> inside)"
| "nesting_ok inside (c # cs) =
     (if c = CHR ''{'' then \<not> inside \<and> nesting_ok True cs
      else if c = CHR ''}'' then inside \<and> nesting_ok False cs
      else nesting_ok inside cs)"

definition spec_object_span :: "string \<Rightarrow> bool" where
  "spec_object_span m \<longleftrightarrow> (\<exists>body. m = CHR ''{'' # body @ [CHR ''}''] \<and> nesting_ok False body)"

text \<open>
  What the model takes from outside the repository: the environment variable
  \<^verbatim>\<open>GOOGLE_API_KEY\<close>, the decoder \<^verbatim>\<open>json.loads\<close> (\<open>Inl msg\<close> is a \<^verbatim>\<open>JSONDecodeError\<close> with
  that text) and the text an f-string gives for a float, a list or a dict.
\<close>

record env =
  GOOGLE_API_KEY :: "string option"
  json_loads :: "string \<Rightarrow> string + json"
  py_repr :: "json \<Rightarrow> string"

definition OFFLINE_MODE :: "env \<Rightarrow> bool" where
  "OFFLINE_MODE e \<longleftrightarrow> GOOGLE_API_KEY e = None"

definition MAX_ROUTING_ATTEMPTS :: int where
  "MAX_ROUTING_ATTEMPTS = 3"

text \<open>\<^verbatim>\<open>x in {"answer", "route"}\<close> hashes \<open>x\<close>; a list or a dict cannot be hashed.\<close>

fun unhashable :: "json \<Rightarrow> bool" where
  "unhashable (JArr xs) = True"
| "unhashable (JObj kvs) = True"
| "unhashable _ = False"

definition extract_and_validate_json :: "env \<Rightarrow> string \<Rightarrow> py_error + (string \<times> json) list" where
  "extract_and_validate_json e raw_text =
     (if raw_text = [] \<or> py_strip raw_text = [] then Inl (ValueError ''Empty response from LLM'')
      else
        case re_search raw_text of
          None \<Rightarrow>
            Inr [(''action'', JStr ''answer''), (''route'', JNull),
                 (''answer'', JStr (py_strip raw_text))]
        | Some json_text \<Rightarrow>
            (case json_loads e json_text of
               Inl msg \<Rightarrow> Inl (ValueError (''Invalid JSON format: '' @ msg))
             | Inr (JObj parsed) \<Rightarrow>
                 (case map_of parsed ''action'' of
                    None \<Rightarrow> Inl (ValueError ''Missing required 'action' key in JSON response'')
                  | Some action \<Rightarrow>
                      if unhashable action then Inl TypeError
                      else if action \<noteq> JStr ''answer'' \<and> action \<noteq> JStr ''route''
                      then Inr (AList.update ''action'' (JStr ''answer'') parsed)
                      else Inr parsed)
             | Inr _ \<Rightarrow> Inl (ValueError ''Response is not a JSON object'')))"

section \<open>The oracle call (call\_llm\_json\_decision)\<close>

text \<open>
  The outcome of \<^verbatim>\<open>await acompletion(...)\<close> in one invocation: it raised, or it returned a
  response from which \<^verbatim>\<open>safe_extract_text\<close> reads a text or \<^verbatim>\<open>None\<close>. The system prompt
  and the payload are what the call is made with; they reach the result only through this
  outcome, so the handlers below take the outcome and no prompt is built.
\<close>

datatype llm_response = LLMError | LLMText "string option"

definition offline_decision :: "(string \<times> json) list" where
  "offline_decision =
     [(''action'', JStr ''answer''), (''route'', JNull),
      (''answer'',
       JStr ''(Offline) I received your query and will help once an API key is configured.'')]"

definition error_decision :: "(string \<times> json) list" where
  "error_decision =
     [(''action'', JStr ''answer''), (''route'', JNull),
      (''answer'', JStr ''I encountered an error processing your request. Please try again.'')]"

definition call_llm_json_decision :: "env \<Rightarrow> llm_response \<Rightarrow> (string \<times> json) list" where
  "call_llm_json_decision e resp =
     (if OFFLINE_MODE e then offline_decision
      else
        case resp of
          LLMError \<Rightarrow> error_decision
        | LLMText t \<Rightarrow>
            (let raw = (case t of None \<Rightarrow> [] | Some r \<Rightarrow> r) in
             case extract_and_validate_json e raw of
               Inl err \<Rightarrow> error_decision
             | Inr parsed \<Rightarrow> parsed))"

section \<open>Text of the messages\<close>

function show_nat :: "nat \<Rightarrow> string" where
  "show_nat n =
     (if n < 10 then [char_of (48 + n)] else show_nat (n div 10) @ [char_of (48 + n mod 10)])"
  by pat_completeness auto
termination
  by (relation "measure (\<lambda>n. n)") auto

declare show_nat.simps [simp del]

definition show_int :: "int \<Rightarrow> string" where
  "show_int i = (if i < 0 then CHR ''-'' # show_nat (nat (- i)) else show_nat (nat i))"

text \<open>What an f-string puts for a value: \<^verbatim>\<open>str(v)\<close>.\<close>

definition py_str :: "env \<Rightarrow> json \<Rightarrow> string" where
  "py_str e v =
     (case v of
        JStr s \<Rightarrow> s
      | JInt i \<Rightarrow> show_int i
      | JNull \<Rightarrow> ''None''
      | JBool b \<Rightarrow> (if b then ''True'' else ''False'')
      | _ \<Rightarrow> py_repr e v)"

text \<open>\<^verbatim>\<open>', '.join(sorted(names))\<close>.\<close>

fun join_comma :: "string list \<Rightarrow> string" where
  "join_comma [] = []"
| "join_comma [x] = x"
| "join_comma (x # y # ys) = x @ '', '' @ join_comma (y # ys)"

definition apostrophe :: string where
  "apostrophe = [CHR 0x27]"

definition assistant :: "string \<Rightarrow> ResumeBuilderState \<Rightarrow> ResumeBuilderState" where
  "assistant text s = append_message ''assistant'' (JStr text) s"

section \<open>General chat handler (general\_chat\_and\_section\_routing)\<close>

text \<open>
  Building \<^verbatim>\<open>compact_sections\<close> slices \<^verbatim>\<open>data.get("missing_requirements", [])[:2]\<close> for every
  section, outside the \<^verbatim>\<open>try\<close>: a value that is neither a string nor a list raises there
  and the exception leaves the handler.
\<close>

fun sliceable :: "json \<Rightarrow> bool" where
  "sliceable (JStr s) = True"
| "sliceable (JArr xs) = True"
| "sliceable _ = False"

definition compact_sections_ok :: "(string \<times> (string \<times> json) list) list \<Rightarrow> bool" where
  "compact_sections_ok objs \<longleftrightarrow>
     list_all (\<lambda>(s, data). sliceable (dict_get data ''missing_requirements'' (JArr []))) objs"

text \<open>The two \<^verbatim>\<open>except\<close> clauses of the handler.\<close>

definition general_chat_except :: "py_error \<Rightarrow> ResumeBuilderState \<Rightarrow> ResumeBuilderState" where
  "general_chat_except err s =
     (case err of
        ValueError msg \<Rightarrow>
          (assistant ''Could you please rephrase your request?'' s)\<lparr>next_action := None\<rparr>
      | _ \<Rightarrow> (assistant ''How can I help you with your resume?'' s)\<lparr>next_action := None\<rparr>)"

text \<open>The body of the \<^verbatim>\<open>try\<close> after the decision has come back.\<close>

definition general_chat_decide ::
  "env \<Rightarrow> (string \<times> json) list \<Rightarrow> ResumeBuilderState \<Rightarrow> ResumeBuilderState" where
  "general_chat_decide e parsed s =
     (let action = dict_get parsed ''action'' JNull;
          route_to = dict_get parsed ''route'' JNull;
          answer_text = dict_get parsed ''answer'' (JStr [])
      in
        if action = JStr ''route'' \<and> truthy route_to then
          (let available_sections = map fst (section_objects s) in
           case normalize_any route_to available_sections of
             Inl err \<Rightarrow> general_chat_except err s
           | Inr normalized_section \<Rightarrow>
               if normalized_section \<noteq> None \<and> normalized_section \<noteq> Some []
               then s\<lparr>current_section := normalized_section, next_action := Some ''section_chat''\<rparr>
               else
                 (assistant
                    (''I couldn't find section '' @ apostrophe @ py_str e route_to @ apostrophe @ ''. Available: '' @
                     join_comma (sort available_sections) @ ''. Which would you like to work on?'')
                    s)\<lparr>next_action := None\<rparr>)
        else
          (if truthy answer_text
           then (append_message ''assistant'' answer_text (s\<lparr>next_action := None\<rparr>))
           else (assistant ''How can I help you with your resume today?'' (s\<lparr>next_action := None\<rparr>))))"

definition general_chat_and_section_routing ::
  "env \<Rightarrow> llm_response \<Rightarrow> ResumeBuilderState \<Rightarrow> py_error + ResumeBuilderState" where
  "general_chat_and_section_routing e resp s =
     (if MAX_ROUTING_ATTEMPTS \<le> routing_attempts s then
        Inr (assistant ''Let's start fresh - how can I help you with your resume?''
               (s\<lparr>current_section := None, routing_attempts := 0, next_action := None\<rparr>))
      else
        let s1 = s\<lparr>routing_attempts := routing_attempts s + 1\<rparr>;
            s2 = (if current_section s1 \<noteq> None
                  then s1\<lparr>current_section := None, next_action := None\<rparr> else s1)
        in
          if \<not> compact_sections_ok (section_objects s2) then Inl TypeError
          else Inr (general_chat_decide e (call_llm_json_decision e resp)
                      (s2\<lparr>routing_attempts := 0\<rparr>)))"

section \<open>Section chat handler (section\_chat\_node)\<close>

text \<open>
  The loop over \<^verbatim>\<open>enumerate(updated_answers)\<close>. It writes into the list of the state, so what
  it has written stays when \<^verbatim>\<open>answer.strip()\<close> raises on a value that is not a string.
\<close>

fun apply_updated_answers ::
  "nat \<Rightarrow> json list \<Rightarrow> string list \<Rightarrow> string list \<times> py_error option" where
  "apply_updated_answers i [] answers = (answers, None)"
| "apply_updated_answers i (answer # rest) answers =
     (if i < length answers \<and> truthy answer then
        (case answer of
           JStr t \<Rightarrow>
             if py_strip t \<noteq> []
             then apply_updated_answers (i + 1) rest (answers[i := py_strip t])
             else apply_updated_answers (i + 1) rest answers
         | _ \<Rightarrow> (answers, Some AttributeError))
      else apply_updated_answers (i + 1) rest answers)"

definition section_chat_except :: "string \<Rightarrow> ResumeBuilderState \<Rightarrow> ResumeBuilderState" where
  "section_chat_except cur s =
     (assistant (''I'm here to help with your '' @ cur @
                 '' section. What would you like to know?'') s)
       \<lparr>next_action := Some ''section_chat''\<rparr>"

text \<open>The routing decisions, once the answers have been updated.\<close>

definition section_chat_dispatch ::
  "env \<Rightarrow> (string \<times> json) list \<Rightarrow> string \<Rightarrow> string list \<Rightarrow> ResumeBuilderState \<Rightarrow>
   ResumeBuilderState" where
  "section_chat_dispatch e parsed cur available_sections s =
     (let action = dict_get parsed ''action'' (JStr ''stay'');
          target_section = dict_get parsed ''target_section'' JNull;
          answer_text = dict_get parsed ''answer'' (JStr [])
      in
        if action = JStr ''switch_section'' \<and> truthy target_section then
          (case normalize_any target_section available_sections of
             Inl err \<Rightarrow> section_chat_except cur s
           | Inr normalized_section \<Rightarrow>
               if normalized_section \<noteq> None \<and> normalized_section \<noteq> Some [] \<and>
                  normalized_section \<noteq> Some cur
               then
                 (let s' = s\<lparr>current_section := normalized_section,
                             next_action := Some ''section_chat''\<rparr>
                  in if truthy answer_text then append_message ''assistant'' answer_text s' else s')
               else if normalized_section = Some cur then
                 append_message ''assistant''
                   (if truthy answer_text then answer_text
                    else JStr (''You're already in the '' @ cur @
                               '' section. How can I help you improve it?''))
                   (s\<lparr>next_action := Some ''section_chat''\<rparr>)
               else
                 assistant
                   (''I couldn't find section '' @ apostrophe @ py_str e target_section @ apostrophe @
                    ''. Available: '' @ join_comma (sort available_sections) @
                    ''. Staying in '' @ cur @ ''.'')
                   (s\<lparr>next_action := Some ''section_chat''\<rparr>))
        else if action = JStr ''exit_section'' then
          append_message ''assistant''
            (if truthy answer_text then answer_text
             else JStr ''Returning to general chat. How can I help with your resume?'')
            (s\<lparr>current_section := None, next_action := Some ''exit_to_general''\<rparr>)
        else if action = JStr ''trigger_updater'' then
          (let s' = s\<lparr>next_action := Some ''section_updater''\<rparr>
           in if truthy answer_text then append_message ''assistant'' answer_text s' else s')
        else if action = JStr ''trigger_applier'' then
          (let s' = s\<lparr>next_action := Some ''section_applier''\<rparr>
           in if truthy answer_text then append_message ''assistant'' answer_text s' else s')
        else
          (let s' = s\<lparr>next_action := None\<rparr>
           in if truthy answer_text then append_message ''assistant'' answer_text s' else s'))"

text \<open>The body of the \<^verbatim>\<open>try\<close>: the answers first, then the routing.\<close>

definition section_chat_decide ::
  "env \<Rightarrow> (string \<times> json) list \<Rightarrow> string \<Rightarrow> string list \<Rightarrow> ResumeBuilderState \<Rightarrow>
   ResumeBuilderState" where
  "section_chat_decide e parsed cur available_sections s =
     (case (map_of parsed ''updated_answers'', recommended_answers s cur) of
        (Some (JArr updated_answers), Some current_answers) \<Rightarrow>
          (case apply_updated_answers 0 updated_answers current_answers of
             (answers, err) \<Rightarrow>
               (let s1 = s\<lparr>recommended_answers := (recommended_answers s)(cur \<mapsto> answers)\<rparr>
                in case err of
                     Some x \<Rightarrow> section_chat_except cur s1
                   | None \<Rightarrow> section_chat_dispatch e parsed cur available_sections s1))
      | _ \<Rightarrow> section_chat_dispatch e parsed cur available_sections s)"

definition section_chat_node ::
  "env \<Rightarrow> llm_response \<Rightarrow> ResumeBuilderState \<Rightarrow> py_error + ResumeBuilderState" where
  "section_chat_node e resp s =
     (if current_section s = None \<or> current_section s = Some [] then
        Inr ((assistant ''Please select a section to work on.'' s)
               \<lparr>next_action := Some ''exit_to_general''\<rparr>)
      else
        let cur = the (current_section s);
            section_data = (case map_of (section_objects s) cur of None \<Rightarrow> [] | Some d \<Rightarrow> d);
            recommended_questions = dict_get section_data ''recommended_questions'' (JArr []);
            available_sections = map fst (section_objects s)
        in
          case safe_initialize_answers s cur recommended_questions of
            Inl err \<Rightarrow> Inl err
          | Inr s1 \<Rightarrow>
              Inr (section_chat_decide e (call_llm_json_decision e resp) cur available_sections s1))"

section \<open>Section applier (section\_applier\_node, apply\_section\_changes\_internal)\<close>

text \<open>The bytes the source file holds in front of its confirmation messages.\<close>

definition applied_mark :: string where
  "applied_mark = [CHR 0xE2, CHR 0x80, CHR 0x9A, CHR 0xC3, CHR 0xBA, CHR 0xC3, CHR 0x96]"

text \<open>\<^verbatim>\<open>d.setdefault(k, v)\<close>.\<close>

definition setdefault :: "(string \<times> json) list \<Rightarrow> string \<Rightarrow> json \<Rightarrow> (string \<times> json) list" where
  "setdefault d k v = (case map_of d k of None \<Rightarrow> d @ [(k, v)] | Some x \<Rightarrow> d)"

definition analysis_defaults :: "(string \<times> json) list \<Rightarrow> (string \<times> json) list" where
  "analysis_defaults d =
     setdefault
       (setdefault
          (setdefault (setdefault d ''alignment_score'' (JInt 70)) ''missing_requirements'' (JArr []))
          ''recommended_questions'' (JArr []))
       ''analysis_summary'' (JStr ''Updated successfully'')"

text \<open>
  The analysis dict of one apply: the canned one offline; otherwise the call may raise, a
  reply without a JSON object or with one that does not decode gives the defaults alone,
  and \<^verbatim>\<open>setdefault\<close> on a decoded value that is no dict raises.
\<close>

datatype py_fault = LLMFault | Raised py_error

definition analysis_result_of ::
  "env \<Rightarrow> llm_response \<Rightarrow> string \<Rightarrow> py_fault + (string \<times> json) list" where
  "analysis_result_of e resp section_name =
     (if OFFLINE_MODE e then
        Inr [(''alignment_score'', JInt 75),
             (''missing_requirements'', JArr [JStr ''More examples needed'']),
             (''recommended_questions'',
              JArr [JStr (''Add more examples to '' @ section_name @ ''?'')]),
             (''analysis_summary'', JStr ''Offline mode'')]
      else
        case resp of
          LLMError \<Rightarrow> Inl LLMFault
        | LLMText t \<Rightarrow>
            (let raw = (case t of None \<Rightarrow> [] | Some r \<Rightarrow> r) in
             case re_search raw of
               None \<Rightarrow> Inr (analysis_defaults [])
             | Some json_text \<Rightarrow>
                 (case json_loads e json_text of
                    Inl msg \<Rightarrow> Inr (analysis_defaults [])
                  | Inr (JObj d) \<Rightarrow> Inr (analysis_defaults d)
                  | Inr _ \<Rightarrow> Inl (Raised AttributeError))))"

definition analysis_failed :: "string \<Rightarrow> ResumeBuilderState \<Rightarrow> ResumeBuilderState" where
  "analysis_failed section_name s =
     assistant (applied_mark @ '' Changes saved to '' @ section_name @
                '', but analysis failed. Continue working on this section.'') s"

definition confirmation_msg :: "env \<Rightarrow> string \<Rightarrow> (string \<times> json) list \<Rightarrow> nat \<Rightarrow> string" where
  "confirmation_msg e section_name analysis_result n =
     applied_mark @ '' Applied changes to '' @ section_name @ ''!'' @ [CHR 0x0A, CHR 0x0A] @
     ''New alignment: '' @ py_str e (dict_get analysis_result ''alignment_score'' JNull) @ ''%'' @
     [CHR 0x0A] @ py_str e (dict_get analysis_result ''analysis_summary'' (JStr [])) @
     [CHR 0x0A, CHR 0x0A] @
     (if truthy (dict_get analysis_result ''recommended_questions'' JNull)
      then ''Continue with '' @ show_nat n @ '' more questions?''
      else ''Section complete! Switch to another section or continue refining.'')"

text \<open>The metadata of the section after \<^verbatim>\<open>state.section_objects[section_name].update({...})\<close>.\<close>

definition update_section_object ::
  "(string \<times> (string \<times> json) list) list \<Rightarrow> string \<Rightarrow> (string \<times> json) list \<Rightarrow>
   (string \<times> (string \<times> json) list) list" where
  "update_section_object objs section_name analysis_result =
     (let old = (case map_of objs section_name of None \<Rightarrow> [] | Some d \<Rightarrow> d)
      in AList.update section_name
           (AList.update ''recommended_questions''
              (dict_get analysis_result ''recommended_questions'' JNull)
              (AList.update ''missing_requirements''
                 (dict_get analysis_result ''missing_requirements'' JNull)
                 (AList.update ''alignment_score''
                    (dict_get analysis_result ''alignment_score'' JNull) old)))
           objs)"

definition apply_section_changes_internal ::
  "env \<Rightarrow> llm_response \<Rightarrow> ResumeBuilderState \<Rightarrow> string \<Rightarrow> json \<Rightarrow>
   py_error + ResumeBuilderState" where
  "apply_section_changes_internal e resp s section_name updated_content =
     (case resume_sections s of
        None \<Rightarrow> Inl TypeError
      | Some sections \<Rightarrow>
          (let s1 = s\<lparr>resume_sections := Some (sections(section_name \<mapsto> updated_content))\<rparr> in
           case analysis_result_of e resp section_name of
             Inl fault \<Rightarrow> Inr (analysis_failed section_name s1)
           | Inr analysis_result \<Rightarrow>
               (let s2 = s1\<lparr>section_objects :=
                              update_section_object (section_objects s1) section_name analysis_result\<rparr>;
                    questions = dict_get analysis_result ''recommended_questions'' JNull
                in
                  if truthy questions then
                    (case py_len questions of
                       Inl err \<Rightarrow> Inr (analysis_failed section_name s2)
                     | Inr n \<Rightarrow>
                         Inr (assistant (confirmation_msg e section_name analysis_result n)
                                (s2\<lparr>recommended_answers :=
                                      (recommended_answers s2)(section_name \<mapsto> replicate n [])\<rparr>)))
                  else
                    Inr (assistant (confirmation_msg e section_name analysis_result 0)
                           (s2\<lparr>recommended_answers :=
                                 (recommended_answers s2)(section_name \<mapsto> [])\<rparr>)))))"

definition section_applier_node ::
  "env \<Rightarrow> llm_response \<Rightarrow> ResumeBuilderState \<Rightarrow> py_error + ResumeBuilderState" where
  "section_applier_node e resp s =
     (if current_section s = None \<or> current_section s = Some [] then
        Inr (s\<lparr>next_action := Some ''exit_to_general''\<rparr>)
      else
        let cur = the (current_section s) in
        case (if truthy (proposed_section_content s) then Inr (proposed_section_content s)
              else case resume_sections s of
                     None \<Rightarrow> Inl AttributeError
                   | Some sections \<Rightarrow>
                       Inr (case sections cur of None \<Rightarrow> JStr [] | Some c \<Rightarrow> c)) of
          Inl err \<Rightarrow> Inl err
        | Inr content_to_apply \<Rightarrow>
            if \<not> truthy content_to_apply then
              Inr ((assistant (''No content to apply for '' @ cur @ ''. Please try again.'') s)
                     \<lparr>next_action := Some ''section_chat''\<rparr>)
            else
              (case apply_section_changes_internal e resp s cur content_to_apply of
                 Inl err \<Rightarrow> Inl err
               | Inr s' \<Rightarrow>
                   Inr (s'\<lparr>proposed_section_content := JNull,
                           next_action := Some ''section_chat''\<rparr>)))"

section \<open>The edges out of the general chat (graph\_builder.py)\<close>

datatype node = GeneralChat | SectionChat | SectionUpdater | SectionApplier | END

definition valid_sections :: "string list" where
  "valid_sections =
     [''skills'', ''experiences'', ''education'', ''projects'', ''summary'', ''contact'',
      ''certificates'', ''publications'', ''languages'', ''recommendations'', ''custom'']"

definition route_from_general_chat :: "ResumeBuilderState \<Rightarrow> node" where
  "route_from_general_chat s =
     (if 3 \<le> routing_attempts s then END
      else if next_action s = Some ''section_chat'' \<and>
              (case current_section s of None \<Rightarrow> False | Some c \<Rightarrow> c \<in> set valid_sections)
      then SectionChat
      else END)"

section \<open>A JSON decoder for the examples\<close>

text \<open>
  The theorems below hold for every decoder. Where a closed example needs one, this is a
  decoder of the texts the examples use: objects, arrays, strings with the one-letter
  escapes, integers, \<^verbatim>\<open>true\<close>, \<^verbatim>\<open>false\<close> and \<^verbatim>\<open>null\<close>, with blanks between the tokens. On
  such a text it returns what \<^verbatim>\<open>json.loads\<close> returns (a key that comes twice keeps its
  first place and its last value); it rejects every other text, in its own words. The
  first argument of \<open>decode_value\<close> bounds the depth of the recursion; every call reads
  at least one character, so the length of the text is bound enough.
\<close>

definition json_space :: "char \<Rightarrow> bool" where
  "json_space c \<longleftrightarrow> c = CHR 0x20 \<or> c = CHR 0x09 \<or> c = CHR 0x0A \<or> c = CHR 0x0D"

definition is_digit :: "char \<Rightarrow> bool" where
  "is_digit c \<longleftrightarrow> 48 \<le> (of_char c :: nat) \<and> (of_char c :: nat) \<le> 57"

definition unescape :: "char \<Rightarrow> char option" where
  "unescape c =
     (if c = CHR 0x22 \<or> c = CHR 0x5C \<or> c = CHR ''/'' then Some c
      else if c = CHR ''b'' then Some (CHR 0x08)
      else if c = CHR ''f'' then Some (CHR 0x0C)
      else if c = CHR ''n'' then Some (CHR 0x0A)
      else if c = CHR ''r'' then Some (CHR 0x0D)
      else if c = CHR ''t'' then Some (CHR 0x09)
      else None)"

fun scan_string :: "string \<Rightarrow> string \<Rightarrow> (string \<times> string) option" where
  "scan_string acc [] = None"
| "scan_string acc [c] = (if c = CHR 0x22 then Some (acc, []) else None)"
| "scan_string acc (c # d # ds) =
     (if c = CHR 0x22 then Some (acc, d # ds)
      else if c = CHR 0x5C then
        (case unescape d of None \<Rightarrow> None | Some x \<Rightarrow> scan_string (acc @ [x]) ds)
      else if (of_char c :: nat) < 32 then None
      else scan_string (acc @ [c]) (d # ds))"

definition scan_number :: "string \<Rightarrow> (json \<times> string) option" where
  "scan_number cs =
     (let neg = (cs \<noteq> [] \<and> hd cs = CHR ''-'');
          body = (if neg then tl cs else cs);
          digits = takeWhile is_digit body;
          rest = dropWhile is_digit body;
          n = foldl (\<lambda>n d. 10 * n + (int (of_char d) - 48)) 0 digits
      in
        if digits = [] \<or> (1 < length digits \<and> hd digits = CHR ''0'') then None
        else if rest \<noteq> [] \<and> (hd rest = CHR ''.'' \<or> hd rest = CHR ''e'' \<or> hd rest = CHR ''E'')
        then None
        else Some (JInt (if neg then - n else n), rest))"

fun decode_value :: "nat \<Rightarrow> string \<Rightarrow> (json \<times> string) option"
  and decode_elements :: "nat \<Rightarrow> json list \<Rightarrow> string \<Rightarrow> (json \<times> string) option"
  and decode_members :: "nat \<Rightarrow> (string \<times> json) list \<Rightarrow> string \<Rightarrow> (json \<times> string) option"
where
  "decode_value 0 cs = None"
| "decode_value (Suc n) cs =
     (case dropWhile json_space cs of
        [] \<Rightarrow> None
      | c # r \<Rightarrow>
          if c = CHR ''{'' then
            (case dropWhile json_space r of
               [] \<Rightarrow> None
             | c' # r' \<Rightarrow> if c' = CHR ''}'' then Some (JObj [], r') else decode_members n [] r)
          else if c = CHR ''['' then
            (case dropWhile json_space r of
               [] \<Rightarrow> None
             | c' # r' \<Rightarrow> if c' = CHR '']'' then Some (JArr [], r') else decode_elements n [] r)
          else if c = CHR 0x22 then
            (case scan_string [] r of None \<Rightarrow> None | Some (t, r') \<Rightarrow> Some (JStr t, r'))
          else if take 4 (c # r) = ''true'' then Some (JBool True, drop 4 (c # r))
          else if take 5 (c # r) = ''false'' then Some (JBool False, drop 5 (c # r))
          else if take 4 (c # r) = ''null'' then Some (JNull, drop 4 (c # r))
          else scan_number (c # r))"
| "decode_elements 0 acc cs = None"
| "decode_elements (Suc n) acc cs =
     (case decode_value n cs of
        None \<Rightarrow> None
      | Some (v, r) \<Rightarrow>
          (case dropWhile json_space r of
             [] \<Rightarrow> None
           | c # r' \<Rightarrow>
               if c = CHR '','' then decode_elements n (acc @ [v]) r'
               else if c = CHR '']'' then Some (JArr (acc @ [v]), r')
               else None))"
| "decode_members 0 acc cs = None"
| "decode_members (Suc n) acc cs =
     (case dropWhile json_space cs of
        [] \<Rightarrow> None
      | q # r \<Rightarrow>
          if q \<noteq> CHR 0x22 then None
          else
            (case scan_string [] r of
               None \<Rightarrow> None
             | Some (k, r1) \<Rightarrow>
                 (case dropWhile json_space r1 of
                    [] \<Rightarrow> None
                  | c # r2 \<Rightarrow>
                      if c \<noteq> CHR '':'' then None
                      else
                        (case decode_value n r2 of
                           None \<Rightarrow> None
                         | Some (v, r3) \<Rightarrow>
                             (case dropWhile json_space r3 of
                                [] \<Rightarrow> None
                              | c' # r4 \<Rightarrow>
                                  if c' = CHR '','' then decode_members n (AList.update k v acc) r4
                                  else if c' = CHR ''}'' then Some (JObj (AList.update k v acc), r4)
                                  else None)))))"

definition json_loads_basic :: "string \<Rightarrow> string + json" where
  "json_loads_basic text =
     (case decode_value (Suc (length text)) text of
        None \<Rightarrow> Inl ''no JSON value''
      | Some (v, rest) \<Rightarrow>
          if dropWhile json_space rest = [] then Inr v else Inl ''Extra data'')"

text \<open>An environment with an API key, and one without.\<close>

definition env_online :: env where
  "env_online =
     \<lparr>GOOGLE_API_KEY = Some ''key'', json_loads = json_loads_basic, py_repr = (\<lambda>v. [])\<rparr>"

definition env_offline :: env where
  "env_offline =
     \<lparr>GOOGLE_API_KEY = None, json_loads = json_loads_basic, py_repr = (\<lambda>v. [])\<rparr>"

section \<open>Example states\<close>

text \<open>Two of the sections \<^verbatim>\<open>main.py\<close> starts the session with, and states built on them.\<close>

definition skills_meta :: "(string \<times> json) list" where
  "skills_meta =
     [(''section_name'', JStr ''skills''),
      (''alignment_score'', JInt 85),
      (''missing_requirements'', JArr [JStr ''GCP'', JStr ''Terraform'']),
      (''recommended_questions'',
       JArr [JStr ''Do you have infrastructure as code experience?'',
             JStr ''Can you highlight any hands-on GCP projects?'',
             JStr ''Have you used Terraform in production environments?''])]"

definition contact_meta :: "(string \<times> json) list" where
  "contact_meta =
     [(''section_name'', JStr ''contact''),
      (''alignment_score'', JInt 95),
      (''missing_requirements'', JArr [JStr ''linked in profile'']),
      (''recommended_questions'',
       JArr [JStr ''Do you have any LinkedIn or GitHub profile?'',
             JStr ''Would you like to include a personal portfolio website?''])]"

definition initial_state :: ResumeBuilderState where
  "initial_state =
     \<lparr>jd_summary = Some ''Senior Python Developer'',
      resume_sections =
        Some [''skills'' \<mapsto> JArr [JStr ''java'', JStr ''python'', JStr ''aws''],
              ''contact'' \<mapsto> JObj [(''email'', JStr ''john.doe@example.com'')]],
      section_objects = [(''skills'', skills_meta), (''contact'', contact_meta)],
      current_section = None,
      context' = [],
      recommended_answers = Map.empty,
      routing_attempts = 0,
      next_action = None,
      proposed_section_content = JNull\<rparr>"

definition in_skills :: ResumeBuilderState where
  "in_skills = initial_state\<lparr>current_section := Some ''skills''\<rparr>"

definition answered_skills :: ResumeBuilderState where
  "answered_skills =
     in_skills\<lparr>recommended_answers :=
                 [''skills'' \<mapsto> [''yes'', ''two projects'', ''in production'']],
               proposed_section_content := JStr ''java, python, aws, terraform''\<rparr>"

definition two_questions_reply :: llm_response where
  \<open>two_questions_reply =
     LLMText (Some ''{"alignment_score": 90, "recommended_questions": ["Which GCP services?", "How large was the team?"]}'')\<close>

text \<open>Consecutive invocations of a handler, each on the state the one before returned.\<close>

fun invoke_times ::
  "nat \<Rightarrow> (ResumeBuilderState \<Rightarrow> py_error + ResumeBuilderState) \<Rightarrow> ResumeBuilderState \<Rightarrow>
   py_error + ResumeBuilderState" where
  "invoke_times 0 handler s = Inr s"
| "invoke_times (Suc n) handler s =
     (case handler s of Inl err \<Rightarrow> Inl err | Inr s' \<Rightarrow> invoke_times n handler s')"

definition questions_is_number_reply :: llm_response where
  \<open>questions_is_number_reply = LLMText (Some ''{"recommended_questions": 5}'')\<close>

definition route_skills_reply :: llm_response where
  \<open>route_skills_reply = LLMText (Some ''{"action": "route", "route": "skills"}'')\<close>






section \<open>Properties of the ledger\<close>

lemma resize_loop_prefix:
  "k \<le> n \<Longrightarrow> k \<le> length cur \<Longrightarrow>
   fold (\<lambda>i new. new[i := cur ! i]) [0..<k] (replicate n []) = take k cur @ replicate (n - k) []"
proof (induction k)
  case 0
  then show ?case by simp
next
  case (Suc k)
  then have ih: "fold (\<lambda>i new. new[i := cur ! i]) [0..<k] (replicate n []) =
                 take k cur @ replicate (n - k) []"
    by simp
  from Suc.prems have nk: "n - k = Suc (n - Suc k)" by arith
  from Suc.prems have lk: "length (take k cur) = k" by simp
  have "(take k cur @ replicate (n - k) [])[k := cur ! k] =
        take k cur @ (replicate (n - k) [])[0 := cur ! k]"
    using lk by (simp add: list_update_append)
  also have "\<dots> = take k cur @ cur ! k # replicate (n - Suc k) []"
    by (simp add: nk)
  also have "\<dots> = take (Suc k) cur @ replicate (n - Suc k) []"
    using Suc.prems by (simp add: take_Suc_conv_app_nth)
  finally show ?case by (simp add: ih)
qed

lemma resize_answers_eq:
  "resize_answers cur n = take n cur @ replicate (n - length cur) []"
proof (cases "length cur \<le> n")
  case True
  then show ?thesis
    using resize_loop_prefix [of "length cur" n cur] by (simp add: resize_answers_def min_def)
next
  case False
  then show ?thesis
    using resize_loop_prefix [of n n cur] by (simp add: resize_answers_def min_def)
qed

lemma length_resize_answers: "length (resize_answers cur n) = n"
  by (simp add: resize_answers_eq)

lemma nth_resize_answers:
  "i < n \<Longrightarrow> resize_answers cur n ! i = (if i < length cur then cur ! i else [])"
  by (auto simp: resize_answers_eq nth_append)

lemma length_apply_updated_answers:
  "length (fst (apply_updated_answers i updated answers)) = length answers"
  by (induction updated arbitrary: i answers) (auto split: json.splits)

lemma dispatch_frame:
  "recommended_answers (section_chat_dispatch e parsed cur available s) = recommended_answers s"
  "resume_sections (section_chat_dispatch e parsed cur available s) = resume_sections s"
  "section_objects (section_chat_dispatch e parsed cur available s) = section_objects s"
  "proposed_section_content (section_chat_dispatch e parsed cur available s) = proposed_section_content s"
  by (simp_all add: section_chat_dispatch_def section_chat_except_def assistant_def
        append_message_def Let_def split: sum.splits)

lemma except_frame:
  "recommended_answers (section_chat_except cur s) = recommended_answers s"
  "resume_sections (section_chat_except cur s) = resume_sections s"
  "section_objects (section_chat_except cur s) = section_objects s"
  "proposed_section_content (section_chat_except cur s) = proposed_section_content s"
  "current_section (section_chat_except cur s) = current_section s"
  "next_action (section_chat_except cur s) = Some ''section_chat''"
  by (simp_all add: section_chat_except_def assistant_def append_message_def)

lemma decide_ledger_length:
  assumes "recommended_answers s cur = Some answers"
  shows "\<exists>answers'. recommended_answers (section_chat_decide e parsed cur available s) cur = Some answers'
           \<and> length answers' = length answers"
proof (cases "\<exists>updated. map_of parsed ''updated_answers'' = Some (JArr updated)")
  case True
  then obtain updated where u: "map_of parsed ''updated_answers'' = Some (JArr updated)" by blast
  obtain answers' err where a: "apply_updated_answers 0 updated answers = (answers', err)"
    by (cases "apply_updated_answers 0 updated answers")
  have "length answers' = length answers"
    using length_apply_updated_answers [of 0 updated answers] a by simp
  then show ?thesis
    using assms u a
    by (simp add: section_chat_decide_def dispatch_frame except_frame Let_def split: option.splits)
next
  case False
  then have "section_chat_decide e parsed cur available s =
             section_chat_dispatch e parsed cur available s"
    by (auto simp: section_chat_decide_def split: option.splits json.splits)
  then show ?thesis using assms by (simp add: dispatch_frame)
qed

lemma decide_keeps_objects:
  "section_objects (section_chat_decide e parsed cur available s) = section_objects s"
  by (simp add: section_chat_decide_def dispatch_frame except_frame Let_def
           split: option.splits json.splits prod.splits)

lemma safe_initialize_answers_result:
  assumes "py_len questions = Inr n"
  shows "\<exists>s1 answers.
           safe_initialize_answers s cur questions = Inr s1 \<and>
           recommended_answers s1 cur = Some answers \<and> length answers = n \<and>
           (\<forall>i<n. answers ! i =
              (case recommended_answers s cur of
                 None \<Rightarrow> []
               | Some old \<Rightarrow> if i < length old then old ! i else [])) \<and>
           (\<forall>name. name \<noteq> cur \<longrightarrow> recommended_answers s1 name = recommended_answers s name) \<and>
           section_objects s1 = section_objects s"
  using assms
  by (auto simp: safe_initialize_answers_def length_resize_answers nth_resize_answers
           split: option.splits)

text \<open>
  Claim C5. After \<open>safe_initialize_answers\<close> the answer list of the section has the length
  of its question list, every slot that had no answer holds the empty string, the update
  loop keeps that length, and so the section chat handler returns with the two lengths
  equal for the section it was entered with.
\<close>

theorem ledger_lengths_agree:
  assumes "py_len questions = Inr n"
  shows "\<exists>s1 answers.
           safe_initialize_answers s cur questions = Inr s1 \<and>
           recommended_answers s1 cur = Some answers \<and> length answers = n \<and>
           (\<forall>i<n. answers ! i =
              (case recommended_answers s cur of
                 None \<Rightarrow> []
               | Some old \<Rightarrow> if i < length old then old ! i else [])) \<and>
           (\<forall>i updated. length (fst (apply_updated_answers i updated answers)) = n) \<and>
           (current_section s = Some cur \<and> cur \<noteq> [] \<and>
            questions = dict_get (case map_of (section_objects s) cur of None \<Rightarrow> [] | Some d \<Rightarrow> d)
                          ''recommended_questions'' (JArr []) \<longrightarrow>
            (\<forall>e resp. \<exists>s' answers'.
               section_chat_node e resp s = Inr s' \<and> section_objects s' = section_objects s \<and>
               recommended_answers s' cur = Some answers' \<and> length answers' = n))"
proof -
  from safe_initialize_answers_result [OF assms, of s cur]
  obtain s1 answers where
    s1: "safe_initialize_answers s cur questions = Inr s1"
    and a: "recommended_answers s1 cur = Some answers" "length answers = n"
    and nth: "\<forall>i<n. answers ! i =
              (case recommended_answers s cur of
                 None \<Rightarrow> []
               | Some old \<Rightarrow> if i < length old then old ! i else [])"
    and objs: "section_objects s1 = section_objects s"
    by blast
  have upd: "\<forall>i updated. length (fst (apply_updated_answers i updated answers)) = n"
    using a(2) by (simp add: length_apply_updated_answers)
  have node: "\<exists>s' answers'.
       section_chat_node e resp s = Inr s' \<and> section_objects s' = section_objects s \<and>
       recommended_answers s' cur = Some answers' \<and> length answers' = n"
    if c: "current_section s = Some cur" "cur \<noteq> []"
      and q: "questions = dict_get (case map_of (section_objects s) cur of None \<Rightarrow> [] | Some d \<Rightarrow> d)
                          ''recommended_questions'' (JArr [])"
    for e resp
  proof -
    let ?p = "call_llm_json_decision e resp"
    have "section_chat_node e resp s =
          Inr (section_chat_decide e ?p cur (map fst (section_objects s)) s1)"
      using c s1 q by (simp add: section_chat_node_def Let_def)
    moreover from decide_ledger_length [OF a(1), of e ?p "map fst (section_objects s)"] a(2)
    obtain answers' where
      "recommended_answers (section_chat_decide e ?p cur (map fst (section_objects s)) s1) cur
         = Some answers'" "length answers' = n"
      by auto
    ultimately show ?thesis using objs by (simp add: decide_keeps_objects)
  qed
  show ?thesis using s1 a nth upd node by blast
qed


theorem ledger_lengths_agree_witness:
  "\<exists>s' answers'.
     section_chat_node env_offline LLMError
       (in_skills\<lparr>recommended_answers := [''skills'' \<mapsto> [''yes'']]\<rparr>) = Inr s' \<and>
     recommended_answers s' ''skills'' = Some answers' \<and> length answers' = 3"
proof -
  let ?s = "in_skills\<lparr>recommended_answers := [''skills'' \<mapsto> [''yes'']]\<rparr>"
  let ?q = "dict_get skills_meta ''recommended_questions'' (JArr [])"
  have h: "py_len ?q = Inr 3"
    by (simp add: skills_meta_def dict_get_def)
  have c: "current_section ?s = Some ''skills'' \<and> ''skills'' \<noteq> [] \<and>
           ?q = dict_get (case map_of (section_objects ?s) ''skills'' of None \<Rightarrow> [] | Some d \<Rightarrow> d)
                  ''recommended_questions'' (JArr [])"
    by (simp add: in_skills_def initial_state_def)
  from ledger_lengths_agree [OF h, of ?s "''skills''"] c show ?thesis
    by blast
qed

section \<open>Re-analysis and the ledger\<close>

lemma apply_resets_ledger:
  assumes "resume_sections s = Some sections"
    and "analysis_result_of e resp name = Inr result"
    and "dict_get result ''recommended_questions'' JNull = JArr qs"
  shows "\<exists>s'. apply_section_changes_internal e resp s name updated_content = Inr s' \<and>
              recommended_answers s' name = Some (replicate (length qs) [])"
  using assms
  by (cases qs)
     (simp_all add: apply_section_changes_internal_def Let_def assistant_def append_message_def)

text \<open>
  Claim C2, as amended. Rebuilding after a length mismatch copies the old values at the
  indices both lists have, pads with empty strings and drops the rest; re-analysis after
  an apply does not rebuild: it sets the ledger of the section to empty strings, one for
  each new question.
\<close>

theorem rebuild_copies_apply_resets:
  "(recommended_answers s name = Some old \<and> py_len questions = Inr n \<and> length old \<noteq> n \<longrightarrow>
      (\<exists>s'. safe_initialize_answers s name questions = Inr s' \<and>
            recommended_answers s' name = Some (take n old @ replicate (n - length old) []))) \<and>
   (resume_sections s = Some sections \<and> analysis_result_of e resp name = Inr result \<and>
    dict_get result ''recommended_questions'' JNull = JArr qs \<longrightarrow>
      (\<exists>s'. apply_section_changes_internal e resp s name updated_content = Inr s' \<and>
            recommended_answers s' name = Some (replicate (length qs) [])))"
proof (intro conjI impI)
  assume "recommended_answers s name = Some old \<and> py_len questions = Inr n \<and> length old \<noteq> n"
  then show "\<exists>s'. safe_initialize_answers s name questions = Inr s' \<and>
            recommended_answers s' name = Some (take n old @ replicate (n - length old) [])"
    by (simp add: safe_initialize_answers_def resize_answers_eq)
next
  assume "resume_sections s = Some sections \<and> analysis_result_of e resp name = Inr result \<and>
    dict_get result ''recommended_questions'' JNull = JArr qs"
  then show "\<exists>s'. apply_section_changes_internal e resp s name updated_content = Inr s' \<and>
            recommended_answers s' name = Some (replicate (length qs) [])"
    using apply_resets_ledger by blast
qed

theorem rebuild_copies_apply_resets_witness:
  "(\<exists>s'. safe_initialize_answers answered_skills ''skills'' (JArr [JStr ''q1'', JStr ''q2'']) = Inr s' \<and>
         recommended_answers s' ''skills'' = Some [''yes'', ''two projects'']) \<and>
   (\<exists>s'. apply_section_changes_internal env_offline LLMError answered_skills ''skills''
           (JStr ''java'') = Inr s' \<and>
         recommended_answers s' ''skills'' = Some [[]])"
proof -
  let ?old = "[''yes'', ''two projects'', ''in production'']"
  let ?sections = "[''skills'' \<mapsto> JArr [JStr ''java'', JStr ''python'', JStr ''aws''],
                   ''contact'' \<mapsto> JObj [(''email'', JStr ''john.doe@example.com'')]]"
  let ?result = "[(''alignment_score'', JInt 75),
                  (''missing_requirements'', JArr [JStr ''More examples needed'']),
                  (''recommended_questions'', JArr [JStr ''Add more examples to skills?'']),
                  (''analysis_summary'', JStr ''Offline mode'')]"
  have a: "recommended_answers answered_skills ''skills'' = Some ?old \<and>
           py_len (JArr [JStr ''q1'', JStr ''q2'']) = Inr 2 \<and> length ?old \<noteq> (2::nat)"
    by (simp add: answered_skills_def)
  have b: "resume_sections answered_skills = Some ?sections \<and>
           analysis_result_of env_offline LLMError ''skills'' = Inr ?result \<and>
           dict_get ?result ''recommended_questions'' JNull =
             JArr [JStr ''Add more examples to skills?'']"
    by (simp add: answered_skills_def in_skills_def initial_state_def analysis_result_of_def
          OFFLINE_MODE_def env_offline_def dict_get_def)
  from rebuild_copies_apply_resets
         [of answered_skills "''skills''" ?old "JArr [JStr ''q1'', JStr ''q2'']" 2
             ?sections env_offline LLMError ?result "[JStr ''Add more examples to skills?'']"
             "JStr ''java''"]
       a b
  show ?thesis by simp
qed

text \<open>
  The claim as it stands fails: three stored answers, an apply whose re-analysis returns
  two questions, and the ledger holds two empty strings, also after the next section chat.
\<close>

theorem requestion_after_apply_counterexample:
  "\<not> isl (section_applier_node env_online two_questions_reply answered_skills) \<and>
   recommended_answers answered_skills ''skills'' =
     Some [''yes'', ''two projects'', ''in production''] \<and>
   recommended_answers
     (projr (section_applier_node env_online two_questions_reply answered_skills)) ''skills'' =
     Some ['''', ''''] \<and>
   recommended_answers
     (projr (section_chat_node env_online (LLMText (Some ''fine''))
        (projr (section_applier_node env_online two_questions_reply answered_skills))))
     ''skills'' = Some ['''', '''']"
  by code_simp

section \<open>The loop cap of the general chat\<close>

lemma general_chat_decide_frame:
  "routing_attempts (general_chat_decide e parsed s) = routing_attempts s"
  "proposed_section_content (general_chat_decide e parsed s) = proposed_section_content s"
  "resume_sections (general_chat_decide e parsed s) = resume_sections s"
  "section_objects (general_chat_decide e parsed s) = section_objects s"
  "recommended_answers (general_chat_decide e parsed s) = recommended_answers s"
  by (simp_all add: general_chat_decide_def general_chat_except_def assistant_def
        append_message_def Let_def split: sum.splits py_error.splits)

text \<open>
  Claim C4, as amended. An invocation that finds the counter at 3 or more resets, whatever
  the oracle says, and the edge out of the general chat ends the run. Every invocation
  that returns leaves the counter at 0, so it does not count invocations that resolved
  no section.
\<close>

theorem hard_reset_at_cap:
  "(3 \<le> routing_attempts s \<longrightarrow>
      general_chat_and_section_routing e resp s =
        Inr (s\<lparr>current_section := None, routing_attempts := 0, next_action := None,
               context' := context' s @
                 [make_message ''assistant''
                    (JStr ''Let's start fresh - how can I help you with your resume?'')]\<rparr>) \<and>
      route_from_general_chat
        (projr (general_chat_and_section_routing e resp s)) = END) \<and>
   (\<forall>s'. general_chat_and_section_routing e resp s = Inr s' \<longrightarrow> routing_attempts s' = 0)"
proof (intro conjI impI allI)
  assume cap: "3 \<le> routing_attempts s"
  then show eq: "general_chat_and_section_routing e resp s =
        Inr (s\<lparr>current_section := None, routing_attempts := 0, next_action := None,
               context' := context' s @
                 [make_message ''assistant''
                    (JStr ''Let's start fresh - how can I help you with your resume?'')]\<rparr>)"
    by (simp add: general_chat_and_section_routing_def MAX_ROUTING_ATTEMPTS_def assistant_def
          append_message_def)
  show "route_from_general_chat (projr (general_chat_and_section_routing e resp s)) = END"
    by (simp add: eq route_from_general_chat_def)
next
  fix s'
  assume "general_chat_and_section_routing e resp s = Inr s'"
  then show "routing_attempts s' = 0"
    by (auto simp: general_chat_and_section_routing_def assistant_def append_message_def
          general_chat_decide_frame Let_def split: if_splits)
qed

theorem hard_reset_at_cap_witness:
  "general_chat_and_section_routing env_online (LLMText (Some ''hello''))
     (in_skills\<lparr>routing_attempts := 3\<rparr>) =
     Inr (in_skills\<lparr>routing_attempts := 0, current_section := None, next_action := None,
            context' := [make_message ''assistant''
                    (JStr ''Let's start fresh - how can I help you with your resume?'')]\<rparr>) \<and>
   routing_attempts
     (projr (general_chat_and_section_routing env_online (LLMText (Some ''hello'')) initial_state))
     = 0"
proof -
  have a: "(3::int) \<le> routing_attempts (in_skills\<lparr>routing_attempts := 3\<rparr>)" by simp
  have "\<not> isl (general_chat_and_section_routing env_online (LLMText (Some ''hello''))
                 initial_state)"
    by code_simp
  then have b: "general_chat_and_section_routing env_online (LLMText (Some ''hello'')) initial_state =
           Inr (projr (general_chat_and_section_routing env_online (LLMText (Some ''hello''))
                  initial_state))"
    by simp
  from hard_reset_at_cap [of "in_skills\<lparr>routing_attempts := 3\<rparr>" env_online "LLMText (Some ''hello'')"] a
       hard_reset_at_cap [of initial_state env_online "LLMText (Some ''hello'')"] b
  show ?thesis by (simp add: in_skills_def initial_state_def)
qed

text \<open>
  The claim as it stands fails: three invocations that resolve no section leave the
  counter at 0, and the fourth answers as the first did.
\<close>

theorem fourth_invocation_counterexample:
  "\<not> isl (invoke_times 4 (general_chat_and_section_routing env_online (LLMText (Some ''hello'')))
            initial_state) \<and>
   current_section
     (projr (invoke_times 3 (general_chat_and_section_routing env_online (LLMText (Some ''hello'')))
               initial_state)) = None \<and>
   routing_attempts
     (projr (invoke_times 3 (general_chat_and_section_routing env_online (LLMText (Some ''hello'')))
               initial_state)) = 0 \<and>
   map content
     (context'
        (projr (invoke_times 4
                  (general_chat_and_section_routing env_online (LLMText (Some ''hello'')))
                  initial_state))) =
     [JStr ''hello'', JStr ''hello'', JStr ''hello'', JStr ''hello'']"
  by code_simp

section \<open>Staged content\<close>

lemma safe_initialize_answers_frame:
  assumes "safe_initialize_answers s name questions = Inr s1"
  shows "proposed_section_content s1 = proposed_section_content s"
    and "resume_sections s1 = resume_sections s"
    and "current_section s1 = current_section s"
    and "context' s1 = context' s"
  using assms
  by (auto simp: safe_initialize_answers_def split: sum.splits option.splits if_splits)

lemma section_chat_decide_frame:
  "proposed_section_content (section_chat_decide e parsed cur available s) =
     proposed_section_content s"
  "resume_sections (section_chat_decide e parsed cur available s) = resume_sections s"
  by (simp_all add: section_chat_decide_def dispatch_frame except_frame Let_def
        split: option.splits json.splits prod.splits)

lemma apply_internal_frame:
  assumes "apply_section_changes_internal e resp s name updated_content = Inr s'"
  shows "proposed_section_content s' = proposed_section_content s"
    and "current_section s' = current_section s"
  using assms
  by (auto simp: apply_section_changes_internal_def analysis_failed_def assistant_def
        append_message_def Let_def split: option.splits sum.splits if_splits)

text \<open>
  Claim C3, as amended. The general chat and the section chat, which are the handlers that
  set \<open>current_section\<close> to \<open>None\<close>, return with the staged content they were given;
  the applier, run on an active section, returns with no staged content, and with
  \<open>None\<close> where something was staged.
\<close>

theorem staged_content_after_handlers:
  "(\<forall>s'. general_chat_and_section_routing e resp s = Inr s' \<longrightarrow>
          proposed_section_content s' = proposed_section_content s) \<and>
   (\<forall>s'. section_chat_node e resp s = Inr s' \<longrightarrow>
          proposed_section_content s' = proposed_section_content s) \<and>
   (\<forall>s'. section_applier_node e resp s = Inr s' \<and>
          current_section s \<noteq> None \<and> current_section s \<noteq> Some [] \<longrightarrow>
          \<not> truthy (proposed_section_content s') \<and>
          (truthy (proposed_section_content s) \<longrightarrow> proposed_section_content s' = JNull))"
proof (intro conjI allI impI)
  fix s'
  assume "general_chat_and_section_routing e resp s = Inr s'"
  then show "proposed_section_content s' = proposed_section_content s"
    by (auto simp: general_chat_and_section_routing_def assistant_def append_message_def
          general_chat_decide_frame Let_def split: if_splits)
next
  fix s'
  assume "section_chat_node e resp s = Inr s'"
  then show "proposed_section_content s' = proposed_section_content s"
    by (auto simp: section_chat_node_def assistant_def append_message_def Let_def
          section_chat_decide_frame safe_initialize_answers_frame
          split: if_splits sum.splits)
next
  fix s'
  assume a: "section_applier_node e resp s = Inr s' \<and>
          current_section s \<noteq> None \<and> current_section s \<noteq> Some []"
  then show "\<not> truthy (proposed_section_content s')"
    by (auto simp: section_applier_node_def assistant_def append_message_def Let_def
          split: if_splits sum.splits option.splits)
  assume "truthy (proposed_section_content s)"
  with a show "proposed_section_content s' = JNull"
    by (auto simp: section_applier_node_def Let_def split: sum.splits)
qed

theorem staged_content_after_handlers_witness:
  "proposed_section_content
     (projr (general_chat_and_section_routing env_online (LLMText (Some ''hello'')) answered_skills))
     = JStr ''java, python, aws, terraform'' \<and>
   proposed_section_content
     (projr (section_chat_node env_online (LLMText (Some ''hello'')) answered_skills))
     = JStr ''java, python, aws, terraform'' \<and>
   proposed_section_content
     (projr (section_applier_node env_online two_questions_reply answered_skills)) = JNull"
proof -
  let ?g = "general_chat_and_section_routing env_online (LLMText (Some ''hello'')) answered_skills"
  let ?c = "section_chat_node env_online (LLMText (Some ''hello'')) answered_skills"
  let ?a = "section_applier_node env_online two_questions_reply answered_skills"
  have "\<not> isl ?g" "\<not> isl ?c" "\<not> isl ?a"
    by code_simp+
  then have r: "?g = Inr (projr ?g)" "?c = Inr (projr ?c)" "?a = Inr (projr ?a)"
    by simp_all
  have p: "proposed_section_content answered_skills = JStr ''java, python, aws, terraform''"
    "current_section answered_skills = Some ''skills''"
    by (simp_all add: answered_skills_def in_skills_def)
  from staged_content_after_handlers
         [of env_online "LLMText (Some ''hello'')" answered_skills]
       staged_content_after_handlers [of env_online two_questions_reply answered_skills]
       r p
  show ?thesis by simp
qed

text \<open>
  The claim as it stands fails: content is staged for the skills section, the general chat
  is entered (with the counter at 0 and at 3) or the section chat acts on an exit, and the
  state has no current section and the staged content.
\<close>

theorem staged_content_left_behind_counterexample:
  "current_section answered_skills = Some ''skills'' \<and>
   \<not> isl (general_chat_and_section_routing env_online (LLMText (Some ''hello'')) answered_skills) \<and>
   current_section
     (projr (general_chat_and_section_routing env_online (LLMText (Some ''hello'')) answered_skills))
     = None \<and>
   proposed_section_content
     (projr (general_chat_and_section_routing env_online (LLMText (Some ''hello'')) answered_skills))
     = JStr ''java, python, aws, terraform'' \<and>
   current_section
     (projr (general_chat_and_section_routing env_online (LLMText (Some ''hello''))
               (answered_skills\<lparr>routing_attempts := 3\<rparr>))) = None \<and>
   proposed_section_content
     (projr (general_chat_and_section_routing env_online (LLMText (Some ''hello''))
               (answered_skills\<lparr>routing_attempts := 3\<rparr>)))
     = JStr ''java, python, aws, terraform'' \<and>
   current_section
     (section_chat_dispatch env_online [(''action'', JStr ''exit_section'')] ''skills''
        [''skills'', ''contact''] answered_skills) = None \<and>
   proposed_section_content
     (section_chat_dispatch env_online [(''action'', JStr ''exit_section'')] ''skills''
        [''skills'', ''contact''] answered_skills) = JStr ''java, python, aws, terraform''"
  by code_simp

section \<open>Offline mode\<close>

text \<open>
  Claim C10. Without an API key the decision call returns one fixed decision, whatever the
  oracle would have said and whatever decoder is at hand, and the general chat returns
  with no current section and no next action.
\<close>

theorem offline_decision_is_fixed:
  assumes "GOOGLE_API_KEY e = None"
  shows "call_llm_json_decision e resp =
           [(''action'', JStr ''answer''), (''route'', JNull),
            (''answer'',
             JStr ''(Offline) I received your query and will help once an API key is configured.'')] \<and>
         (\<forall>e' resp'. GOOGLE_API_KEY e' = None \<longrightarrow>
            call_llm_json_decision e' resp' = call_llm_json_decision e resp) \<and>
         (\<forall>s s'. general_chat_and_section_routing e resp s = Inr s' \<longrightarrow>
            current_section s' = None \<and> next_action s' = None)"
proof (intro conjI allI impI)
  show d: "call_llm_json_decision e resp =
           [(''action'', JStr ''answer''), (''route'', JNull),
            (''answer'',
             JStr ''(Offline) I received your query and will help once an API key is configured.'')]"
    using assms by (simp add: call_llm_json_decision_def OFFLINE_MODE_def offline_decision_def)
  fix e' :: env and resp'
  assume "GOOGLE_API_KEY e' = None"
  then show "call_llm_json_decision e' resp' = call_llm_json_decision e resp"
    using assms by (simp add: call_llm_json_decision_def OFFLINE_MODE_def)
next
  fix s s'
  assume r: "general_chat_and_section_routing e resp s = Inr s'"
  have d: "call_llm_json_decision e resp = offline_decision"
    using assms by (simp add: call_llm_json_decision_def OFFLINE_MODE_def)
  have g: "current_section (general_chat_decide e offline_decision t) = current_section t \<and>
           next_action (general_chat_decide e offline_decision t) = None" for t
    by (simp add: general_chat_decide_def offline_decision_def dict_get_def append_message_def)
  from r show "current_section s' = None"
    by (auto simp: general_chat_and_section_routing_def assistant_def append_message_def
          d g Let_def split: if_splits)
  from r show "next_action s' = None"
    by (auto simp: general_chat_and_section_routing_def assistant_def append_message_def
          d g Let_def split: if_splits)
qed

theorem offline_decision_is_fixed_witness:
  "call_llm_json_decision env_offline route_skills_reply =
     call_llm_json_decision (env_offline\<lparr>json_loads := (\<lambda>t. Inl [])\<rparr>) LLMError \<and>
   current_section
     (projr (general_chat_and_section_routing env_offline route_skills_reply initial_state)) = None"
proof -
  have k: "GOOGLE_API_KEY env_offline = None"
    "GOOGLE_API_KEY (env_offline\<lparr>json_loads := (\<lambda>t. Inl [])\<rparr>) = None"
    by (simp_all add: env_offline_def)
  have "\<not> isl (general_chat_and_section_routing env_offline route_skills_reply initial_state)"
    by code_simp
  then have r: "general_chat_and_section_routing env_offline route_skills_reply initial_state =
                Inr (projr (general_chat_and_section_routing env_offline route_skills_reply
                       initial_state))"
    by simp
  from offline_decision_is_fixed [OF k(1), of route_skills_reply] k(2) r show ?thesis
    by metis
qed

section \<open>The applier commits before it analyses\<close>

lemma apply_internal_commit:
  assumes "resume_sections s = Some sections"
  shows "\<exists>s2. apply_section_changes_internal e resp s cur c = Inr s2 \<and>
           resume_sections s2 = Some (sections(cur \<mapsto> c)) \<and>
           (\<forall>fault. analysis_result_of e resp cur = Inl fault \<longrightarrow>
              s2 = analysis_failed cur (s\<lparr>resume_sections := Some (sections(cur \<mapsto> c))\<rparr>)) \<and>
           (\<forall>result err. analysis_result_of e resp cur = Inr result \<and>
              truthy (dict_get result ''recommended_questions'' JNull) \<and>
              py_len (dict_get result ''recommended_questions'' JNull) = Inl err \<longrightarrow>
              context' s2 =
                context' (analysis_failed cur (s\<lparr>resume_sections := Some (sections(cur \<mapsto> c))\<rparr>)))"
proof (cases "analysis_result_of e resp cur")
  case (Inl fault)
  with assms show ?thesis
    by (simp add: apply_section_changes_internal_def analysis_failed_def assistant_def
          append_message_def)
next
  case (Inr result)
  let ?q = "dict_get result ''recommended_questions'' JNull"
  show ?thesis
  proof (cases "truthy ?q")
    case False
    with assms Inr show ?thesis
      by (simp add: apply_section_changes_internal_def assistant_def append_message_def Let_def)
  next
    case True
    show ?thesis
    proof (cases "py_len ?q")
      case (Inl err)
      with assms Inr True show ?thesis
        by (simp add: apply_section_changes_internal_def analysis_failed_def assistant_def
              append_message_def Let_def)
    next
      case (Inr n)
      with assms \<open>analysis_result_of e resp cur = Inr result\<close> True show ?thesis
        by (simp add: apply_section_changes_internal_def assistant_def append_message_def Let_def)
    qed
  qed
qed

text \<open>
  Claim C6, as amended. Run on an active section with content to apply and a dict of
  sections, the applier returns with the content written under the section, whatever the
  analysis does. When the analysis result cannot be obtained (the call raises, or the
  decoded reply is no dict), the metadata and the ledger are as before and the one new
  message is the "saved, but analysis failed" one; that message is also the one appended
  when the questions of the result have no length.
\<close>

theorem commit_survives_analysis_fault:
  assumes "current_section s = Some cur" and "cur \<noteq> []"
    and "resume_sections s = Some sections"
    and "content_to_apply =
           (if truthy (proposed_section_content s) then proposed_section_content s
            else case sections cur of None \<Rightarrow> JStr [] | Some c \<Rightarrow> c)"
    and "truthy content_to_apply"
  shows "\<exists>s'. section_applier_node e resp s = Inr s' \<and>
           resume_sections s' = Some (sections(cur \<mapsto> content_to_apply)) \<and>
           next_action s' = Some ''section_chat'' \<and>
           (\<forall>fault. analysis_result_of e resp cur = Inl fault \<longrightarrow>
              section_objects s' = section_objects s \<and>
              recommended_answers s' = recommended_answers s \<and>
              context' s' = context' s @
                [make_message ''assistant''
                   (JStr (applied_mark @ '' Changes saved to '' @ cur @
                          '', but analysis failed. Continue working on this section.''))]) \<and>
           (\<forall>result err. analysis_result_of e resp cur = Inr result \<and>
              truthy (dict_get result ''recommended_questions'' JNull) \<and>
              py_len (dict_get result ''recommended_questions'' JNull) = Inl err \<longrightarrow>
              context' s' = context' s @
                [make_message ''assistant''
                   (JStr (applied_mark @ '' Changes saved to '' @ cur @
                          '', but analysis failed. Continue working on this section.''))])"
proof -
  let ?s1 = "s\<lparr>resume_sections := Some (sections(cur \<mapsto> content_to_apply))\<rparr>"
  have node: "section_applier_node e resp s =
        (case apply_section_changes_internal e resp s cur content_to_apply of
           Inl err \<Rightarrow> Inl err
         | Inr s' \<Rightarrow> Inr (s'\<lparr>proposed_section_content := JNull,
                              next_action := Some ''section_chat''\<rparr>))"
    using assms by (simp add: section_applier_node_def Let_def split: if_splits)
  obtain s2 where s2: "apply_section_changes_internal e resp s cur content_to_apply = Inr s2"
    and rs: "resume_sections s2 = Some (sections(cur \<mapsto> content_to_apply))"
    and early: "\<forall>fault. analysis_result_of e resp cur = Inl fault \<longrightarrow>
                  s2 = analysis_failed cur ?s1"
    and late: "\<forall>result err. analysis_result_of e resp cur = Inr result \<and>
              truthy (dict_get result ''recommended_questions'' JNull) \<and>
              py_len (dict_get result ''recommended_questions'' JNull) = Inl err \<longrightarrow>
              context' s2 = context' (analysis_failed cur ?s1)"
    using apply_internal_commit [OF assms(3), of e resp cur content_to_apply] by blast
  let ?s' = "s2\<lparr>proposed_section_content := JNull, next_action := Some ''section_chat''\<rparr>"
  have "section_applier_node e resp s = Inr ?s'"
    using node s2 by simp
  moreover have "resume_sections ?s' = Some (sections(cur \<mapsto> content_to_apply))"
    using rs by simp
  moreover have "next_action ?s' = Some ''section_chat''" by simp
  moreover have "\<forall>fault. analysis_result_of e resp cur = Inl fault \<longrightarrow>
              section_objects ?s' = section_objects s \<and>
              recommended_answers ?s' = recommended_answers s \<and>
              context' ?s' = context' s @
                [make_message ''assistant''
                   (JStr (applied_mark @ '' Changes saved to '' @ cur @
                          '', but analysis failed. Continue working on this section.''))]"
    using early by (auto simp: analysis_failed_def assistant_def append_message_def)
  moreover have "\<forall>result err. analysis_result_of e resp cur = Inr result \<and>
              truthy (dict_get result ''recommended_questions'' JNull) \<and>
              py_len (dict_get result ''recommended_questions'' JNull) = Inl err \<longrightarrow>
              context' ?s' = context' s @
                [make_message ''assistant''
                   (JStr (applied_mark @ '' Changes saved to '' @ cur @
                          '', but analysis failed. Continue working on this section.''))]"
    using late by (auto simp: analysis_failed_def assistant_def append_message_def)
  ultimately show ?thesis by blast
qed

theorem commit_survives_analysis_fault_witness:
  "(\<exists>s' sections'. section_applier_node env_online LLMError answered_skills = Inr s' \<and>
     resume_sections s' = Some sections' \<and>
     sections' ''skills'' = Some (JStr ''java, python, aws, terraform'') \<and>
     section_objects s' = section_objects answered_skills \<and>
     context' s' =
       [make_message ''assistant''
          (JStr (applied_mark @
             '' Changes saved to skills, but analysis failed. Continue working on this section.''))]) \<and>
   (\<exists>s' sections'.
     section_applier_node env_online questions_is_number_reply answered_skills = Inr s' \<and>
     resume_sections s' = Some sections' \<and>
     sections' ''skills'' = Some (JStr ''java, python, aws, terraform'') \<and>
     context' s' =
       [make_message ''assistant''
          (JStr (applied_mark @
             '' Changes saved to skills, but analysis failed. Continue working on this section.''))])"
proof -
  let ?sections = "[''skills'' \<mapsto> JArr [JStr ''java'', JStr ''python'', JStr ''aws''],
                   ''contact'' \<mapsto> JObj [(''email'', JStr ''john.doe@example.com'')]]"
  let ?result = "[(''recommended_questions'', JInt 5), (''alignment_score'', JInt 70),
                  (''missing_requirements'', JArr []),
                  (''analysis_summary'', JStr ''Updated successfully'')]"
  let ?msg = "make_message ''assistant''
          (JStr (applied_mark @ '' Changes saved to '' @ ''skills'' @
                 '', but analysis failed. Continue working on this section.''))"
  have a: "current_section answered_skills = Some ''skills''" "''skills'' \<noteq> []"
    "resume_sections answered_skills = Some ?sections"
    "JStr ''java, python, aws, terraform'' =
       (if truthy (proposed_section_content answered_skills)
        then proposed_section_content answered_skills
        else case ?sections ''skills'' of None \<Rightarrow> JStr [] | Some c \<Rightarrow> c)"
    "truthy (JStr ''java, python, aws, terraform'')"
    by (simp_all add: answered_skills_def in_skills_def initial_state_def)
  have f: "analysis_result_of env_online LLMError ''skills'' = Inl LLMFault"
    by (simp add: analysis_result_of_def OFFLINE_MODE_def env_online_def)
  have g: "analysis_result_of env_online questions_is_number_reply ''skills'' = Inr ?result"
    by code_simp
  have h: "truthy (dict_get ?result ''recommended_questions'' JNull) \<and>
           py_len (dict_get ?result ''recommended_questions'' JNull) = Inl TypeError"
    by (simp add: dict_get_def)
  have c: "context' answered_skills = []"
    by (simp add: answered_skills_def in_skills_def initial_state_def)
  from commit_survives_analysis_fault [OF a, of env_online LLMError] f
  obtain s1 where s1:
    "section_applier_node env_online LLMError answered_skills = Inr s1"
    "resume_sections s1 = Some (?sections(''skills'' \<mapsto> JStr ''java, python, aws, terraform''))"
    "section_objects s1 = section_objects answered_skills"
    "context' s1 = context' answered_skills @ [?msg]"
    by blast
  from commit_survives_analysis_fault [OF a, of env_online questions_is_number_reply] g h
  obtain s2 where s2:
    "section_applier_node env_online questions_is_number_reply answered_skills = Inr s2"
    "resume_sections s2 = Some (?sections(''skills'' \<mapsto> JStr ''java, python, aws, terraform''))"
    "context' s2 = context' answered_skills @ [?msg]"
    by blast
  from s1 c have "\<exists>s' sections'. section_applier_node env_online LLMError answered_skills = Inr s' \<and>
     resume_sections s' = Some sections' \<and>
     sections' ''skills'' = Some (JStr ''java, python, aws, terraform'') \<and>
     section_objects s' = section_objects answered_skills \<and>
     context' s' =
       [make_message ''assistant''
          (JStr (applied_mark @
             '' Changes saved to skills, but analysis failed. Continue working on this section.''))]"
    by simp
  moreover from s2 c have "\<exists>s' sections'.
     section_applier_node env_online questions_is_number_reply answered_skills = Inr s' \<and>
     resume_sections s' = Some sections' \<and>
     sections' ''skills'' = Some (JStr ''java, python, aws, terraform'') \<and>
     context' s' =
       [make_message ''assistant''
          (JStr (applied_mark @
             '' Changes saved to skills, but analysis failed. Continue working on this section.''))]"
    by simp
  ultimately show ?thesis by blast
qed

text \<open>
  The claim as it stands fails: the analysis reply gives a number for the questions, the
  metadata of the section is overwritten, and only then does \<^verbatim>\<open>len\<close> raise.
\<close>

theorem metadata_overwritten_counterexample:
  "\<not> isl (section_applier_node env_online questions_is_number_reply answered_skills) \<and>
   map_of (section_objects answered_skills) ''skills'' = Some skills_meta \<and>
   map_of (section_objects
             (projr (section_applier_node env_online questions_is_number_reply answered_skills)))
     ''skills'' =
     Some [(''section_name'', JStr ''skills''), (''alignment_score'', JInt 70),
           (''missing_requirements'', JArr []), (''recommended_questions'', JInt 5)] \<and>
   map content
     (context'
        (projr (section_applier_node env_online questions_is_number_reply answered_skills))) =
     [JStr (applied_mark @
        '' Changes saved to skills, but analysis failed. Continue working on this section.'')]"
  by code_simp

section \<open>The search for a JSON object\<close>

lemma nesting_ok_skip:
  "\<forall>c \<in> set xs. not_brace c \<Longrightarrow> nesting_ok b (xs @ ys) = nesting_ok b ys"
  by (induction xs) (simp_all add: not_brace_def)

lemma nesting_inside:
  "nesting_ok True t \<Longrightarrow>
   \<exists>t2. dropWhile not_brace t = CHR ''}'' # t2 \<and> nesting_ok False t2"
  by (induction t) (auto simp: not_brace_def split: if_splits)

lemma nesting_outside:
  "nesting_ok False t \<Longrightarrow>
   nesting_ok False (dropWhile not_brace t) \<and>
   (dropWhile not_brace t = [] \<or> hd (dropWhile not_brace t) = CHR ''{'')"
  by (induction t) (auto simp: not_brace_def split: if_splits)

lemma span_before_stop:
  "\<not> P y \<Longrightarrow>
   takeWhile P (xs @ y # ys) = takeWhile P xs \<and>
   dropWhile P (xs @ y # ys) = dropWhile P xs @ y # ys"
  by (induction xs) auto

lemma match_groups_Nil: "match_groups acc [] = None"
  by (simp add: match_groups.simps [of acc "[]"])

lemma match_groups_Cons:
  "match_groups acc (c # r) =
     (if c = CHR ''}'' then Some (acc @ [c])
      else if c = CHR ''{'' then
        (case dropWhile not_brace r of
           [] \<Rightarrow> None
         | c2 # r3 \<Rightarrow>
             if c2 = CHR ''}''
             then match_groups
                    (acc @ [c] @ takeWhile not_brace r @ [c2] @ takeWhile not_brace r3)
                    (dropWhile not_brace r3)
             else None)
      else None)"
  by (subst match_groups.simps) simp

lemma match_groups_sound:
  "match_groups acc rest = Some m \<Longrightarrow>
   \<exists>t post. rest = t @ CHR ''}'' # post \<and> (t = [] \<or> hd t = CHR ''{'') \<and>
            nesting_ok False t \<and> m = acc @ t @ [CHR ''}'']"
proof (induction acc rest arbitrary: m rule: match_groups.induct)
  case (1 acc rest)
  from "1.prems" obtain c r where rest: "rest = c # r"
    by (cases rest) (simp_all add: match_groups_Nil)
  note unfold = match_groups_Cons [of acc c r]
  show ?case
  proof (cases "c = CHR ''}''")
    case True
    with "1.prems" rest unfold have "m = acc @ [] @ [CHR ''}'']"
      by simp
    with True rest have "rest = [] @ CHR ''}'' # r \<and> ([] = [] \<or> hd [] = CHR ''{'') \<and>
          nesting_ok False [] \<and> m = acc @ [] @ [CHR ''}'']"
      by simp
    then show ?thesis by blast
  next
    case False
    with "1.prems" rest unfold have c: "c = CHR ''{''"
      by (simp split: if_splits)
    from "1.prems" rest c unfold obtain c2 r3 where d: "dropWhile not_brace r = c2 # r3"
      by (cases "dropWhile not_brace r") simp_all
    from "1.prems" rest c d unfold have c2: "c2 = CHR ''}''"
      by (simp split: if_splits)
    let ?acc' = "acc @ [c] @ takeWhile not_brace r @ [c2] @ takeWhile not_brace r3"
    from "1.prems" rest c d c2 unfold
    have rec: "match_groups ?acc' (dropWhile not_brace r3) = Some m"
      by simp
    from "1.IH" [OF rest False c d c2 rec]
    obtain t' post where t': "dropWhile not_brace r3 = t' @ CHR ''}'' # post"
      "t' = [] \<or> hd t' = CHR ''{''" "nesting_ok False t'" "m = ?acc' @ t' @ [CHR ''}'']"
      by blast
    let ?t = "CHR ''{'' # takeWhile not_brace r @ CHR ''}'' # takeWhile not_brace r3 @ t'"
    have "r = takeWhile not_brace r @ c2 # r3"
      by (metis d takeWhile_dropWhile_id)
    moreover have "r3 = takeWhile not_brace r3 @ t' @ CHR ''}'' # post"
      by (metis t'(1) takeWhile_dropWhile_id)
    ultimately have "r = takeWhile not_brace r @ c2 # takeWhile not_brace r3 @ t' @ CHR ''}'' # post"
      by simp
    then have "c # r = ?t @ CHR ''}'' # post"
      using c c2 by simp
    then have a: "rest = ?t @ CHR ''}'' # post"
      using rest by simp
    have "\<forall>x \<in> set (takeWhile not_brace r). not_brace x"
      "\<forall>x \<in> set (takeWhile not_brace r3). not_brace x"
      by (auto dest: set_takeWhileD)
    then have b: "nesting_ok False ?t"
      using t'(3) by (simp add: nesting_ok_skip)
    have e: "m = acc @ ?t @ [CHR ''}'']"
      using t'(4) c c2 by simp
    have "?t = [] \<or> hd ?t = CHR ''{''" by simp
    with a b e show ?thesis by blast
  qed
qed

lemma match_groups_complete:
  "rest = t @ CHR ''}'' # post \<Longrightarrow> t = [] \<or> hd t = CHR ''{'' \<Longrightarrow> nesting_ok False t \<Longrightarrow>
   match_groups acc rest = Some (acc @ t @ [CHR ''}''])"
proof (induction acc rest arbitrary: t rule: match_groups.induct)
  case (1 acc rest)
  show ?case
  proof (cases t)
    case Nil
    with "1.prems" show ?thesis by (simp add: match_groups_Cons)
  next
    case (Cons c t1)
    with "1.prems" have c: "c = CHR ''{''" and in1: "nesting_ok True t1" by simp_all
    from nesting_inside [OF in1] obtain t2 where
      d1: "dropWhile not_brace t1 = CHR ''}'' # t2" and t2: "nesting_ok False t2"
      by blast
    let ?r = "t1 @ CHR ''}'' # post"
    let ?r3 = "t2 @ CHR ''}'' # post"
    let ?t3 = "dropWhile not_brace t2"
    have rest: "rest = c # ?r" using "1.prems"(1) Cons by simp
    have nb: "\<not> not_brace (CHR ''}'')" by (simp add: not_brace_def)
    have tw: "takeWhile not_brace ?r = takeWhile not_brace t1"
      using span_before_stop [of not_brace "CHR ''}''" t1 post] nb by blast
    have "dropWhile not_brace ?r = dropWhile not_brace t1 @ CHR ''}'' # post"
      using span_before_stop [of not_brace "CHR ''}''" t1 post] nb by blast
    then have dw: "dropWhile not_brace ?r = CHR ''}'' # ?r3"
      by (simp only: d1 append_Cons)
    have tw3: "takeWhile not_brace ?r3 = takeWhile not_brace t2"
      using span_before_stop [of not_brace "CHR ''}''" t2 post] nb by blast
    have dw3: "dropWhile not_brace ?r3 = ?t3 @ CHR ''}'' # post"
      using span_before_stop [of not_brace "CHR ''}''" t2 post] nb by blast
    from nesting_outside [OF t2] have t3: "nesting_ok False ?t3" "?t3 = [] \<or> hd ?t3 = CHR ''{''"
      by simp_all
    let ?acc' = "acc @ [c] @ takeWhile not_brace ?r @ [CHR ''}''] @ takeWhile not_brace ?r3"
    have ne: "c \<noteq> CHR ''}''" using c by simp
    from "1.IH" [OF rest ne c dw refl dw3 t3(2) t3(1)]
    have "match_groups ?acc' (dropWhile not_brace ?r3) = Some (?acc' @ ?t3 @ [CHR ''}''])" .
    then have m: "match_groups acc (c # ?r) = Some (?acc' @ ?t3 @ [CHR ''}''])"
      using c dw by (simp add: match_groups_Cons)
    have "takeWhile not_brace t1 @ CHR ''}'' # t2 = t1"
      by (metis d1 takeWhile_dropWhile_id)
    moreover have "takeWhile not_brace t2 @ ?t3 = t2" by simp
    ultimately have "takeWhile not_brace t1 @ CHR ''}'' # takeWhile not_brace t2 @ ?t3 = t1"
      by simp
    then have "?acc' @ ?t3 @ [CHR ''}''] = acc @ t @ [CHR ''}'']"
      using Cons by (simp add: tw tw3)
    with m rest show ?thesis by simp
  qed
qed

lemma match_at_iff:
  "match_at raw = Some m \<longleftrightarrow> (\<exists>post. raw = m @ post \<and> spec_object_span m)"
proof
  assume a: "match_at raw = Some m"
  then obtain c r where tx: "raw = c # r" and c: "c = CHR ''{''"
    and g: "match_groups (c # takeWhile not_brace r) (dropWhile not_brace r) = Some m"
    by (cases raw) (auto simp: match_at_def split: if_splits)
  from match_groups_sound [OF g] obtain t post where
    d: "dropWhile not_brace r = t @ CHR ''}'' # post" and t: "nesting_ok False t"
    and m: "m = (c # takeWhile not_brace r) @ t @ [CHR ''}'']"
    by blast
  have "\<forall>x \<in> set (takeWhile not_brace r). not_brace x"
    by (auto dest: set_takeWhileD)
  then have "nesting_ok False (takeWhile not_brace r @ t)"
    using t by (simp add: nesting_ok_skip)
  then have span: "spec_object_span m"
    using m c by (auto simp: spec_object_span_def)
  have "r = takeWhile not_brace r @ t @ CHR ''}'' # post"
    by (metis d takeWhile_dropWhile_id)
  then have "raw = m @ post"
    using tx m by simp
  with span show "\<exists>post. raw = m @ post \<and> spec_object_span m" by blast
next
  assume "\<exists>post. raw = m @ post \<and> spec_object_span m"
  then obtain post body where tx: "raw = CHR ''{'' # body @ CHR ''}'' # post"
    and m: "m = CHR ''{'' # body @ [CHR ''}'']" and body: "nesting_ok False body"
    by (auto simp: spec_object_span_def)
  have nb: "\<not> not_brace (CHR ''}'')" by (simp add: not_brace_def)
  have tw: "takeWhile not_brace (body @ CHR ''}'' # post) = takeWhile not_brace body"
    using span_before_stop [of not_brace "CHR ''}''" body post] nb by blast
  have dw: "dropWhile not_brace (body @ CHR ''}'' # post) =
            dropWhile not_brace body @ CHR ''}'' # post"
    using span_before_stop [of not_brace "CHR ''}''" body post] nb by blast
  from nesting_outside [OF body]
  have t: "nesting_ok False (dropWhile not_brace body)"
    "dropWhile not_brace body = [] \<or> hd (dropWhile not_brace body) = CHR ''{''"
    by simp_all
  from match_groups_complete [OF dw t(2) t(1), of "CHR ''{'' # takeWhile not_brace body"]
  have "match_groups (CHR ''{'' # takeWhile not_brace body)
          (dropWhile not_brace (body @ CHR ''}'' # post)) = Some m"
    by (simp add: m)
  then show "match_at raw = Some m"
    by (simp add: match_at_def tx tw)
qed


lemma re_search_Some:
  "re_search raw = Some m \<Longrightarrow>
   \<exists>pre post. raw = pre @ m @ post \<and> spec_object_span m \<and> re_search pre = None"
proof (induction raw)
  case Nil
  then show ?case by simp
next
  case (Cons c cs)
  show ?case
  proof (cases "match_at (c # cs)")
    case (Some m')
    with Cons.prems have "m' = m" by simp
    with Some match_at_iff [of "c # cs" m] obtain post where
      "c # cs = [] @ m @ post" "spec_object_span m"
      by auto
    moreover have "re_search [] = None" by simp
    ultimately show ?thesis by blast
  next
    case None
    with Cons.prems have "re_search cs = Some m" by simp
    with Cons.IH obtain pre post where p: "cs = pre @ m @ post" "spec_object_span m"
      "re_search pre = None"
      by blast
    have "match_at (c # pre) = None"
    proof (rule ccontr)
      assume "match_at (c # pre) \<noteq> None"
      then obtain m' where "match_at (c # pre) = Some m'" by blast
      with match_at_iff [of "c # pre" m'] obtain post' where
        "c # pre = m' @ post'" "spec_object_span m'"
        by blast
      then have "c # cs = m' @ (post' @ m @ post) \<and> spec_object_span m'"
        using p(1) by (metis append_Cons append_assoc)
      with match_at_iff [of "c # cs" m'] None show False by auto
    qed
    with p(3) have "re_search (c # pre) = None" by simp
    moreover have "c # cs = (c # pre) @ m @ post" using p(1) by simp
    ultimately show ?thesis using p(2) by blast
  qed
qed



section \<open>Actions the extractor does not know\<close>





section \<open>A switch to the section one is in\<close>





section \<open>The resolver\<close>









end
